theory Spec2Isabelle
  imports Main "HOL-Library.Word"
begin

section \<open>Strings\<close>

text \<open>
  A JavaScript string is a sequence of UTF-16 code units: \<open>s.length\<close> counts code
  units and \<open>s.substring(0, n)\<close> keeps the first \<open>n\<close> of them. String literals of
  the source are ASCII and are written with \<open>lit\<close>.
\<close>

type_synonym code_unit = "16 word"
type_synonym js_string = "code_unit list"

definition lit :: "string \<Rightarrow> js_string" where
  "lit s = map (\<lambda>c. of_nat (of_char c)) s"

text \<open>
  The time value of a valid \<open>Date\<close>: milliseconds since the epoch. The actions of
  the store create their dates with \<open>new Date()\<close>, which is valid, and the records
  of the store hold valid dates. The Invalid Dates that a state read from a damaged blob
  can hold appear among the JavaScript values of the persistence layer, as
  \<open>JDate None\<close>.
\<close>

type_synonym date = int

section \<open>The store: \<open>src/client/store/index.ts\<close>\<close>

subsection \<open>Data model\<close>

datatype sender = SenderUser | SenderAi

text \<open>\<open>Omit<Message, "id">\<close>, the argument of \<open>addMessage\<close>.\<close>

record message_data =
  content :: js_string
  sender :: sender
  timestamp :: date
  imageUrl :: "js_string option"

text \<open>\<open>Message\<close>: the fields above and \<open>id\<close>.\<close>

record message = message_data +
  message_id :: js_string

record chatroom =
  chatroom_id :: js_string
  title :: js_string
  messages :: "message list"
  createdAt :: date
  lastMessage :: "date option"

record user =
  user_id :: js_string
  phone :: js_string
  countryCode :: js_string
  isAuthenticated :: bool

datatype theme = Light | Dark

record app_state =
  user :: "user option"
  isAuthenticating :: bool
  otpSent :: bool
  chatrooms :: "chatroom list"
  activeChatroomId :: "js_string option"
  isTyping :: bool
  searchQuery :: js_string
  isSidebarOpen :: bool
  theme :: theme

definition initial_state :: app_state where
  "initial_state =
     \<lparr>user = None, isAuthenticating = False, otpSent = False,
      chatrooms = [], activeChatroomId = None, isTyping = False, searchQuery = [],
      isSidebarOpen = True, theme = Light\<rparr>"

subsection \<open>Actions\<close>

definition setUser :: "user option \<Rightarrow> app_state \<Rightarrow> app_state" where
  "setUser u state = state\<lparr>user := u\<rparr>"

definition setAuthenticating :: "bool \<Rightarrow> app_state \<Rightarrow> app_state" where
  "setAuthenticating b state = state\<lparr>isAuthenticating := b\<rparr>"

definition setOtpSent :: "bool \<Rightarrow> app_state \<Rightarrow> app_state" where
  "setOtpSent b state = state\<lparr>otpSent := b\<rparr>"

text \<open>
  \<open>createChatroom(title?)\<close>. The results of \<open>crypto.randomUUID()\<close> and of
  \<open>new Date()\<close> are the arguments \<open>uuid\<close> and \<open>now\<close>; an omitted title is
  \<open>None\<close>. \<open>title || "New Chat"\<close> takes the default when the title is undefined or
  the empty string. The action returns the new chatroom and the updated state.
\<close>

definition createChatroom ::
  "js_string \<Rightarrow> date \<Rightarrow> js_string option \<Rightarrow> app_state \<Rightarrow> chatroom \<times> app_state" where
  "createChatroom uuid now title_arg state =
     (let newChatroom =
            \<lparr>chatroom_id = uuid,
             title = (case title_arg of
                        None \<Rightarrow> lit ''New Chat''
                      | Some t \<Rightarrow> if t = [] then lit ''New Chat'' else t),
             messages = [],
             createdAt = now,
             lastMessage = None\<rparr>
      in (newChatroom,
          state\<lparr>chatrooms := newChatroom # chatrooms state,
                activeChatroomId := Some (chatroom_id newChatroom)\<rparr>))"

text \<open>
  \<open>deleteChatroom(id)\<close>. \<open>remainingChatrooms[0]\<close> is read only when the list is not
  empty.
\<close>

definition deleteChatroom :: "js_string \<Rightarrow> app_state \<Rightarrow> app_state" where
  "deleteChatroom i state =
     (let chatroomExists = list_ex (\<lambda>room. chatroom_id room = i) (chatrooms state)
      in if \<not> chatroomExists then state
         else
           let remainingChatrooms = filter (\<lambda>room. chatroom_id room \<noteq> i) (chatrooms state);
               newActiveChatroomId =
                 (if activeChatroomId state = Some i
                  then (if length remainingChatrooms > 0
                        then Some (chatroom_id (remainingChatrooms ! 0))
                        else None)
                  else activeChatroomId state)
           in state\<lparr>chatrooms := remainingChatrooms,
                    activeChatroomId := newActiveChatroomId,
                    isTyping := False\<rparr>)"

definition setActiveChatroom :: "js_string \<Rightarrow> app_state \<Rightarrow> app_state" where
  "setActiveChatroom i state = state\<lparr>activeChatroomId := Some i\<rparr>"

text \<open>
  \<open>addMessage(chatroomId, messageData)\<close>; \<open>uuid\<close> is the result of
  \<open>crypto.randomUUID()\<close>. \<open>addMessage_room\<close> is the function mapped over the
  chatrooms.
\<close>

definition addMessage_room :: "js_string \<Rightarrow> message \<Rightarrow> chatroom \<Rightarrow> chatroom" where
  "addMessage_room chatroomId msg room =
     (if chatroom_id room = chatroomId
      then room\<lparr>messages := messages room @ [msg],
                lastMessage := Some (timestamp msg),
                title :=
                  (if length (messages room) = 0
                   then (if length (content msg) > 50
                         then take 50 (content msg) @ lit ''...''
                         else content msg)
                   else title room)\<rparr>
      else room)"

definition addMessage :: "js_string \<Rightarrow> js_string \<Rightarrow> message_data \<Rightarrow> app_state \<Rightarrow> app_state" where
  "addMessage uuid chatroomId messageData state =
     (let msg = message_data.extend messageData (message.fields uuid)
      in state\<lparr>chatrooms := map (addMessage_room chatroomId msg) (chatrooms state)\<rparr>)"

definition setTyping :: "bool \<Rightarrow> app_state \<Rightarrow> app_state" where
  "setTyping b state = state\<lparr>isTyping := b\<rparr>"

definition setSearchQuery :: "js_string \<Rightarrow> app_state \<Rightarrow> app_state" where
  "setSearchQuery q state = state\<lparr>searchQuery := q\<rparr>"

definition setSidebarOpen :: "bool \<Rightarrow> app_state \<Rightarrow> app_state" where
  "setSidebarOpen b state = state\<lparr>isSidebarOpen := b\<rparr>"

definition setTheme :: "theme \<Rightarrow> app_state \<Rightarrow> app_state" where
  "setTheme t state = state\<lparr>theme := t\<rparr>"

subsection \<open>Sequences of actions\<close>

text \<open>
  Every action of the store with its arguments; for \<open>createChatroom\<close> and
  \<open>addMessage\<close> also the values read from \<open>crypto.randomUUID()\<close> and
  \<open>new Date()\<close>.
\<close>

datatype action =
    SetUser "user option"
  | SetAuthenticating bool
  | SetOtpSent bool
  | CreateChatroom js_string date "js_string option"
  | DeleteChatroom js_string
  | SetActiveChatroom js_string
  | AddMessage js_string js_string message_data
  | SetTyping bool
  | SetSearchQuery js_string
  | SetSidebarOpen bool
  | SetTheme theme

fun step :: "action \<Rightarrow> app_state \<Rightarrow> app_state" where
  "step (SetUser u) s = setUser u s"
| "step (SetAuthenticating b) s = setAuthenticating b s"
| "step (SetOtpSent b) s = setOtpSent b s"
| "step (CreateChatroom uuid now t) s = snd (createChatroom uuid now t s)"
| "step (DeleteChatroom i) s = deleteChatroom i s"
| "step (SetActiveChatroom i) s = setActiveChatroom i s"
| "step (AddMessage uuid c m) s = addMessage uuid c m s"
| "step (SetTyping b) s = setTyping b s"
| "step (SetSearchQuery q) s = setSearchQuery q s"
| "step (SetSidebarOpen b) s = setSidebarOpen b s"
| "step (SetTheme t) s = setTheme t s"

fun run :: "action list \<Rightarrow> app_state \<Rightarrow> app_state" where
  "run [] s = s"
| "run (a # acts) s = run acts (step a s)"

text \<open>The chatroom with id \<open>i\<close> is in the collection.\<close>

definition has_chatroom :: "js_string \<Rightarrow> app_state \<Rightarrow> bool" where
  "has_chatroom i s = list_ex (\<lambda>room. chatroom_id room = i) (chatrooms s)"

text \<open>The active id is null or the id of a chatroom of the collection.\<close>

definition active_valid :: "app_state \<Rightarrow> bool" where
  "active_valid s =
     (case activeChatroomId s of None \<Rightarrow> True | Some a \<Rightarrow> has_chatroom a s)"

text \<open>
  Every \<open>setActiveChatroom\<close> of the sequence is called with the id of a chatroom
  that is in the collection at that moment, as the sidebar does, which selects only
  chatrooms it lists.
\<close>

fun selects_known :: "action list \<Rightarrow> app_state \<Rightarrow> bool" where
  "selects_known [] s = True"
| "selects_known (a # acts) s =
     ((case a of SetActiveChatroom i \<Rightarrow> has_chatroom i s | _ \<Rightarrow> True)
      \<and> selects_known acts (step a s))"

text \<open>The title \<open>addMessage\<close> derives from the first message of a chatroom.\<close>

definition derived_title :: "js_string \<Rightarrow> js_string" where
  "derived_title c = (if length c > 50 then take 50 c @ lit ''...'' else c)"

section \<open>The message list: \<open>MessageList.tsx\<close> (\<open>src/unnamed/part_003\<close>)\<close>

subsection \<open>Numbers in template strings\<close>

text \<open>
  \<open>`${n}`\<close> for a JavaScript number holding a non-negative integer (below \<open>10^21\<close>)
  is its decimal representation; a negative integer gets a leading minus sign. Page
  numbers and message indices are non-negative integers, here \<open>nat\<close>: the arithmetic of
  the source is exact on them as long as they stay below \<open>2^53\<close>, and the component
  asks for the pages 0 to 9 only.
\<close>

function dec :: "nat \<Rightarrow> js_string" where
  "dec n = (if n < 10 then [of_nat (48 + n)] else dec (n div 10) @ [of_nat (48 + n mod 10)])"
  by pat_completeness auto
termination
  by (relation "measure id") auto

declare dec.simps [simp del]

text \<open>Reading a decimal representation back; used to show that \<open>dec\<close> is injective.\<close>

definition undec :: "js_string \<Rightarrow> nat" where
  "undec s = foldl (\<lambda>acc u. 10 * acc + (unat u - 48)) 0 s"

definition show_int :: "int \<Rightarrow> js_string" where
  "show_int k = (if k < 0 then lit ''-'' @ dec (nat (- k)) else dec (nat k))"

subsection \<open>\<open>generateDummyMessages\<close>\<close>

definition MESSAGES_PER_PAGE :: nat where
  "MESSAGES_PER_PAGE = 20"

text \<open>
  What one call of \<open>generateDummyMessages\<close> reads from outside: in the iteration \<open>i\<close>
  of its loop, \<open>Date.now()\<close> for the id, \<open>Math.random().toString(36).substr(2, 9)\<close>,
  and \<open>Date.now()\<close> again for the timestamp.
\<close>

record environment =
  now_for_id :: "nat \<Rightarrow> int"
  random_suffix :: "nat \<Rightarrow> js_string"
  now_for_timestamp :: "nat \<Rightarrow> int"

text \<open>The message pushed by the iteration \<open>i\<close> of the loop.\<close>

definition dummy_message :: "environment \<Rightarrow> js_string \<Rightarrow> nat \<Rightarrow> nat \<Rightarrow> message" where
  "dummy_message env chatroomId page i =
     (let startIndex = page * MESSAGES_PER_PAGE;
          messageIndex = startIndex + i;
          isUser = (messageIndex mod 3 = 0);
          uniqueId = lit ''dummy-'' @ chatroomId @ lit ''-page'' @ dec page @ lit ''-''
                     @ dec messageIndex @ lit ''-'' @ show_int (now_for_id env i) @ lit ''-''
                     @ random_suffix env i
      in \<lparr>content =
            (if isUser
             then lit ''This is user message #'' @ dec (messageIndex + 1)
                  @ lit ''. Here'' @ [39] @ lit ''s a question or statement from the user.''
             else lit ''This is AI response #'' @ dec (messageIndex + 1)
                  @ lit ''. Here'' @ [39]
                  @ lit ''s a helpful response from Gemini with some detailed information.''),
          sender = (if isUser then SenderUser else SenderAi),
          timestamp = now_for_timestamp env i - int ((messageIndex + 1) * 60000),
          imageUrl = None,
          message_id = uniqueId\<rparr>)"

function generate_loop ::
  "environment \<Rightarrow> js_string \<Rightarrow> nat \<Rightarrow> nat \<Rightarrow> message list \<Rightarrow> message list" where
  "generate_loop env chatroomId page i msgs =
     (if i < MESSAGES_PER_PAGE
      then generate_loop env chatroomId page (i + 1)
             (msgs @ [dummy_message env chatroomId page i])
      else msgs)"
  by pat_completeness auto
termination
  by (relation "measure (\<lambda>(env, chatroomId, page, i, msgs). MESSAGES_PER_PAGE - i)") auto

declare generate_loop.simps [simp del]

definition generateDummyMessages :: "environment \<Rightarrow> js_string \<Rightarrow> nat \<Rightarrow> message list" where
  "generateDummyMessages env chatroomId page = rev (generate_loop env chatroomId page 0 [])"

subsection \<open>The state of a \<open>MessageList\<close>\<close>

record view_state =
  loadingOlder :: bool
  hasMoreMessages :: bool
  page :: nat
  olderMessages :: "message list"

text \<open>The initial values of the four \<open>useState\<close> cells.\<close>

definition initial_view :: view_state where
  "initial_view =
     \<lparr>loadingOlder = False, hasMoreMessages = True, page = 0, olderMessages = []\<rparr>"

text \<open>
  The effect that runs when the component is mounted and when \<open>chatroomId\<close> or
  \<open>messages.length\<close> changes; \<open>messages_length\<close> is the number of real messages of
  the chatroom.
\<close>

definition reset_effect :: "nat \<Rightarrow> view_state \<Rightarrow> view_state" where
  "reset_effect messages_length vs =
     vs\<lparr>olderMessages := [], page := 0, hasMoreMessages := (messages_length > 0),
        loadingOlder := False\<rparr>"

text \<open>
  \<open>loadOlderMessages\<close> up to \<open>setTimeout\<close>. The callback is created anew
  whenever \<open>chatroomId\<close>, \<open>loadingOlder\<close>, \<open>hasMoreMessages\<close> or \<open>page\<close>
  changes, so a request reads their current values. The result is the new state and the
  timer that was scheduled, if one was: the timer's callback is a closure over
  \<open>chatroomId\<close> and \<open>page\<close> as they were at the request.
\<close>

record pending_load =
  load_chatroomId :: js_string
  load_page :: nat

definition loadOlderMessages ::
  "js_string \<Rightarrow> nat \<Rightarrow> view_state \<Rightarrow> view_state \<times> pending_load option" where
  "loadOlderMessages chatroomId messages_length vs =
     (if loadingOlder vs \<or> \<not> hasMoreMessages vs then (vs, None)
      else if messages_length = 0 then (vs\<lparr>hasMoreMessages := False\<rparr>, None)
      else if page vs \<ge> 10 then (vs\<lparr>hasMoreMessages := False\<rparr>, None)
      else (vs\<lparr>loadingOlder := True\<rparr>,
            Some \<lparr>load_chatroomId = chatroomId, load_page = page vs\<rparr>))"

text \<open>
  The callback of the timer, one second later: \<open>env\<close> is what this run of
  \<open>generateDummyMessages\<close> reads, \<open>vs\<close> the state at that moment. The three
  functional updates \<open>setOlderMessages\<close>, \<open>setPage\<close> and \<open>setLoadingOlder\<close> apply to
  the current state; the page generated and tested is the one of the closure.
\<close>

definition load_timeout :: "environment \<Rightarrow> pending_load \<Rightarrow> view_state \<Rightarrow> view_state" where
  "load_timeout env pending vs =
     (let newMessages = generateDummyMessages env (load_chatroomId pending) (load_page pending);
          vs1 = (if length newMessages < MESSAGES_PER_PAGE \<or> load_page pending \<ge> 9
                 then vs\<lparr>hasMoreMessages := False\<rparr> else vs);
          prev = olderMessages vs1;
          existingIds = set (map message_id prev);
          filteredNewMessages = filter (\<lambda>msg. message_id msg \<notin> existingIds) newMessages
      in vs1\<lparr>olderMessages := filteredNewMessages @ prev,
             page := page vs1 + 1,
             loadingOlder := False\<rparr>)"

text \<open>
  One load request together with its completion: the request, and, when it scheduled a
  timer, the timer's callback. \<open>load_requests\<close> issues one request after the other,
  each completed before the next; the list gives the environment of each completion.
\<close>

definition load_request :: "js_string \<Rightarrow> nat \<Rightarrow> environment \<Rightarrow> view_state \<Rightarrow> view_state" where
  "load_request chatroomId messages_length env vs =
     (case loadOlderMessages chatroomId messages_length vs of
        (vs', None) \<Rightarrow> vs'
      | (vs', Some pending) \<Rightarrow> load_timeout env pending vs')"

fun load_requests ::
  "js_string \<Rightarrow> nat \<Rightarrow> environment list \<Rightarrow> view_state \<Rightarrow> view_state" where
  "load_requests chatroomId messages_length [] vs = vs"
| "load_requests chatroomId messages_length (env # envs) vs =
     load_requests chatroomId messages_length envs
       (load_request chatroomId messages_length env vs)"

text \<open>
  What happens to a view between two runs of the reset effect, with \<open>chatroomId\<close> and
  \<open>messages.length\<close> unchanged: a load request, or the expiry of the oldest pending
  timer (all timers run for one second), which reads an environment. A view is the state
  with the timers that are pending; no timer is ever cancelled. Without a pending timer
  no timer can expire.
\<close>

datatype view_event = Request | Timeout environment

fun view_step ::
  "js_string \<Rightarrow> nat \<Rightarrow> view_event \<Rightarrow> view_state \<times> pending_load list
     \<Rightarrow> view_state \<times> pending_load list" where
  "view_step chatroomId messages_length Request (vs, timers) =
     (case loadOlderMessages chatroomId messages_length vs of
        (vs', None) \<Rightarrow> (vs', timers)
      | (vs', Some pending) \<Rightarrow> (vs', timers @ [pending]))"
| "view_step chatroomId messages_length (Timeout env) (vs, []) = (vs, [])"
| "view_step chatroomId messages_length (Timeout env) (vs, pending # timers) =
     (load_timeout env pending vs, timers)"

fun run_view ::
  "js_string \<Rightarrow> nat \<Rightarrow> view_event list \<Rightarrow> view_state \<times> pending_load list
     \<Rightarrow> view_state \<times> pending_load list" where
  "run_view chatroomId messages_length [] v = v"
| "run_view chatroomId messages_length (ev # evs) v =
     run_view chatroomId messages_length evs (view_step chatroomId messages_length ev v)"

text \<open>
  What holds of a view along every sequence of requests and expiries that starts where
  the reset effect leaves a chatroom with real messages; it is used in the proofs only.
  The ids of the older messages name the pages they come from.
\<close>

definition view_invariant :: "js_string \<Rightarrow> view_state \<times> pending_load list \<Rightarrow> bool" where
  "view_invariant c v =
     (case v of (vs, timers) \<Rightarrow>
        page vs \<le> 10
        \<and> hasMoreMessages vs = (page vs < 10)
        \<and> length (olderMessages vs) = 20 * page vs
        \<and> (\<forall>m\<in>set (olderMessages vs). \<exists>q<page vs. \<exists>r.
              message_id m = lit ''dummy-'' @ c @ lit ''-page'' @ dec q @ lit ''-'' @ r)
        \<and> (if loadingOlder vs
            then timers = [\<lparr>load_chatroomId = c, load_page = page vs\<rparr>] \<and> page vs < 10
            else timers = []))"

section \<open>Persistence: the \<open>storage\<close> option of \<open>persist\<close>\<close>

subsection \<open>JavaScript values\<close>

text \<open>
  \<open>getItem\<close> works on whatever \<open>JSON.parse\<close> returns, typed \<open>any\<close>. The values
  are those of JSON (null, booleans, numbers, strings, arrays, objects) and the two that
  \<open>getItem\<close> itself puts into the result: \<open>undefined\<close> and \<open>Date\<close> objects. A
  \<open>Date\<close> holds a time value or is an Invalid Date (\<open>None\<close>). The only number of the
  persisted blob is the version, an integer. An object is the list of its properties;
  \<open>getItem\<close> reads properties by name only.
\<close>

datatype js_value =
    JUndefined
  | JNull
  | JBool bool
  | JNumber int
  | JString js_string
  | JDate "int option"
  | JArray "js_value list"
  | JObject "(js_string \<times> js_value) list"

datatype js_error = TypeError

text \<open>\<open>v === null || v === undefined\<close>, the test of \<open>?.\<close>.\<close>

fun nullish :: "js_value \<Rightarrow> bool" where
  "nullish JUndefined = True"
| "nullish JNull = True"
| "nullish v = False"

text \<open>The truth value of \<open>v\<close> in a condition.\<close>

fun truthy :: "js_value \<Rightarrow> bool" where
  "truthy JUndefined = False"
| "truthy JNull = False"
| "truthy (JBool b) = b"
| "truthy (JNumber n) = (n \<noteq> 0)"
| "truthy (JString s) = (s \<noteq> [])"
| "truthy v = True"

text \<open>
  The own enumerable properties of a value, which the spread \<open>{...v}\<close> copies: the
  properties of an object, the indexed elements of an array or of a string, none for
  the other values.
\<close>

fun own_props :: "js_value \<Rightarrow> (js_string \<times> js_value) list" where
  "own_props (JObject ps) = ps"
| "own_props (JArray xs) = zip (map dec [0..<length xs]) xs"
| "own_props (JString s) = zip (map dec [0..<length s]) (map (\<lambda>u. JString [u]) s)"
| "own_props v = []"

text \<open>Defining the property \<open>k\<close>: an existing property keeps its place.\<close>

fun set_prop ::
  "js_string \<Rightarrow> js_value \<Rightarrow> (js_string \<times> js_value) list \<Rightarrow> (js_string \<times> js_value) list" where
  "set_prop k v [] = [(k, v)]"
| "set_prop k v (p # ps) = (if fst p = k then (k, v) # ps else p # set_prop k v ps)"

text \<open>
  \<open>v.k\<close> for the property names \<open>getItem\<close> reads (\<open>state\<close>, \<open>chatrooms\<close>,
  \<open>createdAt\<close>, \<open>lastMessage\<close>, \<open>messages\<close>, \<open>timestamp\<close>), none of which is a
  built-in property of arrays, strings, numbers or booleans: a TypeError on null and
  undefined, the property of an object, undefined otherwise.
\<close>

fun get_prop :: "js_value \<Rightarrow> js_string \<Rightarrow> js_error + js_value" where
  "get_prop JUndefined k = Inl TypeError"
| "get_prop JNull k = Inl TypeError"
| "get_prop (JObject ps) k = Inr (case map_of ps k of None \<Rightarrow> JUndefined | Some v \<Rightarrow> v)"
| "get_prop v k = Inr JUndefined"

text \<open>
  \<open>obj.k = v\<close>. \<open>getItem\<close> assigns only to \<open>parsed.state\<close>, which is an object
  whenever the assignment is reached.
\<close>

fun assign_prop :: "js_value \<Rightarrow> js_string \<Rightarrow> js_value \<Rightarrow> js_error + js_value" where
  "assign_prop (JObject ps) k v = Inr (JObject (set_prop k v ps))"
| "assign_prop obj k v = Inl TypeError"

text \<open>
  \<open>v.map(f)\<close>: the array of the results, or the first exception that \<open>f\<close> throws;
  a TypeError when \<open>v\<close> is not an array, since no other value of JSON has a callable
  \<open>map\<close>.
\<close>

fun map_result :: "('a \<Rightarrow> js_error + 'b) \<Rightarrow> 'a list \<Rightarrow> js_error + 'b list" where
  "map_result f [] = Inr []"
| "map_result f (x # xs) =
     (case f x of
        Inl e \<Rightarrow> Inl e
      | Inr y \<Rightarrow> (case map_result f xs of Inl e \<Rightarrow> Inl e | Inr ys \<Rightarrow> Inr (y # ys)))"

fun array_map :: "(js_value \<Rightarrow> js_error + js_value) \<Rightarrow> js_value \<Rightarrow> js_error + js_value" where
  "array_map f (JArray xs) =
     (case map_result f xs of Inl e \<Rightarrow> Inl e | Inr ys \<Rightarrow> Inr (JArray ys))"
| "array_map f v = Inl TypeError"

subsection \<open>The platform\<close>

text \<open>
  The built-ins that the storage functions call: \<open>JSON.stringify\<close>, \<open>JSON.parse\<close>
  (\<open>None\<close> when it throws a SyntaxError), \<open>new Date(v)\<close> (a time value, \<open>None\<close>
  for an Invalid Date, or the TypeError that the conversion of an object to a primitive
  throws), and \<open>Date.prototype.toISOString\<close>, through which \<open>JSON.stringify\<close>
  writes a \<open>Date\<close>. \<open>localStorage\<close> maps names to strings; \<open>localStorage.getItem\<close> gives
  null for a name it does not hold.
\<close>

record platform =
  JSON_stringify :: "js_value \<Rightarrow> js_string"
  JSON_parse :: "js_string \<Rightarrow> js_value option"
  toISOString :: "int \<Rightarrow> js_string"
  new_Date :: "js_value \<Rightarrow> js_error + int option"

type_synonym local_storage = "js_string \<rightharpoonup> js_string"

text \<open>
  The value that \<open>JSON.parse\<close> reads from the text \<open>JSON.stringify\<close> wrote for
  \<open>v\<close>, by ECMAScript's definition of the two: a valid \<open>Date\<close> has become its ISO
  string and an invalid one null, a property whose value is undefined is gone,
  undefined in an array has become null, everything else is as it was. The round-trip
  theorem assumes of the platform that it behaves so on the value written.
\<close>

fun jsonified :: "(int \<Rightarrow> js_string) \<Rightarrow> js_value \<Rightarrow> js_value" where
  "jsonified fmt (JDate (Some t)) = JString (fmt t)"
| "jsonified fmt (JDate None) = JNull"
| "jsonified fmt JUndefined = JNull"
| "jsonified fmt (JArray xs) = JArray (map (jsonified fmt) xs)"
| "jsonified fmt (JObject ps) =
     JObject (map (\<lambda>(k, v). (k, jsonified fmt v)) (filter (\<lambda>(k, v). v \<noteq> JUndefined) ps))"
| "jsonified fmt v = v"

subsection \<open>\<open>getItem\<close>, \<open>setItem\<close>, \<open>removeItem\<close>\<close>

text \<open>The function mapped over \<open>room.messages\<close>.\<close>

definition revive_message :: "platform \<Rightarrow> js_value \<Rightarrow> js_error + js_value" where
  "revive_message P msg =
     (case get_prop msg (lit ''timestamp'') of
        Inl e \<Rightarrow> Inl e
      | Inr ts \<Rightarrow>
     (case new_Date P ts of
        Inl e \<Rightarrow> Inl e
      | Inr d \<Rightarrow>
          Inr (JObject (set_prop (lit ''timestamp'') (JDate d) (own_props msg)))))"

text \<open>
  The function mapped over \<open>parsed.state.chatrooms\<close>, its properties evaluated in the
  order of the object literal. \<open>room.messages?.map(...)\<close> is undefined for null and
  undefined messages, and then \<open>|| []\<close> gives the empty array.
\<close>

definition revive_room :: "platform \<Rightarrow> js_value \<Rightarrow> js_error + js_value" where
  "revive_room P room =
     (case get_prop room (lit ''createdAt'') of
        Inl e \<Rightarrow> Inl e
      | Inr c \<Rightarrow>
     (case new_Date P c of
        Inl e \<Rightarrow> Inl e
      | Inr created \<Rightarrow>
     (case get_prop room (lit ''lastMessage'') of
        Inl e \<Rightarrow> Inl e
      | Inr l \<Rightarrow>
     (case (if truthy l
            then (case new_Date P l of Inl e \<Rightarrow> Inl e | Inr d \<Rightarrow> Inr (JDate d))
            else Inr JUndefined) of
        Inl e \<Rightarrow> Inl e
      | Inr lastMsg \<Rightarrow>
     (case get_prop room (lit ''messages'') of
        Inl e \<Rightarrow> Inl e
      | Inr m \<Rightarrow>
     (case (if nullish m then Inr JUndefined else array_map (revive_message P) m) of
        Inl e \<Rightarrow> Inl e
      | Inr mapped \<Rightarrow>
          Inr (JObject
                (set_prop (lit ''messages'') (if truthy mapped then mapped else JArray [])
                  (set_prop (lit ''lastMessage'') lastMsg
                    (set_prop (lit ''createdAt'') (JDate created)
                      (own_props room)))))))))))"

text \<open>The body of the \<open>try\<close> block after \<open>JSON.parse\<close>.\<close>

definition revive :: "platform \<Rightarrow> js_value \<Rightarrow> js_error + js_value" where
  "revive P parsed =
     (case get_prop parsed (lit ''state'') of
        Inl e \<Rightarrow> Inl e
      | Inr st \<Rightarrow>
     (case (if nullish st then Inr JUndefined else get_prop st (lit ''chatrooms'')) of
        Inl e \<Rightarrow> Inl e
      | Inr cs \<Rightarrow>
          if truthy cs
          then (case array_map (revive_room P) cs of
                  Inl e \<Rightarrow> Inl e
                | Inr rooms \<Rightarrow>
                    (case assign_prop st (lit ''chatrooms'') rooms of
                       Inl e \<Rightarrow> Inl e
                     | Inr st' \<Rightarrow> assign_prop parsed (lit ''state'') st'))
          else Inr parsed))"

text \<open>
  \<open>getItem(name)\<close>: \<open>None\<close> is the result null. \<open>!item\<close> holds for null and for the
  empty string; every exception of the \<open>try\<close> block ends in \<open>catch\<close>, which returns
  null.
\<close>

definition getItem :: "platform \<Rightarrow> local_storage \<Rightarrow> js_string \<Rightarrow> js_value option" where
  "getItem P storage name =
     (case storage name of
        None \<Rightarrow> None
      | Some item \<Rightarrow>
          if item = [] then None
          else (case JSON_parse P item of
                  None \<Rightarrow> None
                | Some parsed \<Rightarrow>
                    (case revive P parsed of Inl e \<Rightarrow> None | Inr v \<Rightarrow> Some v)))"

definition setItem ::
  "platform \<Rightarrow> js_string \<Rightarrow> js_value \<Rightarrow> local_storage \<Rightarrow> local_storage" where
  "setItem P name v storage = storage(name \<mapsto> JSON_stringify P v)"

definition removeItem :: "js_string \<Rightarrow> local_storage \<Rightarrow> local_storage" where
  "removeItem name storage = storage(name := None)"

subsection \<open>The persisted part of the state\<close>

record persisted =
  persisted_user :: "user option"
  persisted_chatrooms :: "chatroom list"
  persisted_activeChatroomId :: "js_string option"
  persisted_theme :: theme

definition partialize :: "app_state \<Rightarrow> persisted" where
  "partialize state =
     \<lparr>persisted_user = user state, persisted_chatrooms = chatrooms state,
      persisted_activeChatroomId = activeChatroomId state, persisted_theme = theme state\<rparr>"

text \<open>
  The objects of the store as JavaScript values: a message, a chatroom, a user, the
  persisted part of the state, and the value \<open>{state, version}\<close> that \<open>persist\<close>
  hands to \<open>setItem\<close>. An optional field that is not set is left out.
\<close>

text \<open>The time values of the \<open>Date\<close> fields of a chatroom and of the persisted state.\<close>

definition chatroom_dates :: "chatroom \<Rightarrow> date list" where
  "chatroom_dates room =
     createdAt room
     # (case lastMessage room of None \<Rightarrow> [] | Some t \<Rightarrow> [t])
     @ map timestamp (messages room)"

definition persisted_dates :: "persisted \<Rightarrow> date list" where
  "persisted_dates p = concat (map chatroom_dates (persisted_chatrooms p))"

definition js_of_message :: "message \<Rightarrow> js_value" where
  "js_of_message m =
     JObject ([(lit ''content'', JString (content m)),
               (lit ''sender'', JString (case sender m of SenderUser \<Rightarrow> lit ''user''
                                                 | SenderAi \<Rightarrow> lit ''ai'')),
               (lit ''timestamp'', JDate (Some (timestamp m)))]
              @ (case imageUrl m of None \<Rightarrow> [] | Some u \<Rightarrow> [(lit ''imageUrl'', JString u)])
              @ [(lit ''id'', JString (message_id m))])"

definition js_of_chatroom :: "chatroom \<Rightarrow> js_value" where
  "js_of_chatroom room =
     JObject ([(lit ''id'', JString (chatroom_id room)),
               (lit ''title'', JString (title room)),
               (lit ''messages'', JArray (map js_of_message (messages room))),
               (lit ''createdAt'', JDate (Some (createdAt room)))]
              @ (case lastMessage room of
                   None \<Rightarrow> []
                 | Some t \<Rightarrow> [(lit ''lastMessage'', JDate (Some t))]))"

definition js_of_user :: "user \<Rightarrow> js_value" where
  "js_of_user u =
     JObject [(lit ''id'', JString (user_id u)), (lit ''phone'', JString (phone u)),
              (lit ''countryCode'', JString (countryCode u)),
              (lit ''isAuthenticated'', JBool (isAuthenticated u))]"

definition js_of_persisted :: "persisted \<Rightarrow> js_value" where
  "js_of_persisted p =
     JObject [(lit ''user'',
                 (case persisted_user p of None \<Rightarrow> JNull | Some u \<Rightarrow> js_of_user u)),
              (lit ''chatrooms'', JArray (map js_of_chatroom (persisted_chatrooms p))),
              (lit ''activeChatroomId'',
                 (case persisted_activeChatroomId p of None \<Rightarrow> JNull | Some i \<Rightarrow> JString i)),
              (lit ''theme'',
                 JString (case persisted_theme p of
                            Light \<Rightarrow> lit ''light'' | Dark \<Rightarrow> lit ''dark''))]"

definition storage_value :: "persisted \<Rightarrow> js_value" where
  "storage_value p = JObject [(lit ''state'', js_of_persisted p), (lit ''version'', JNumber 0)]"

text \<open>
  Reading a JavaScript value as a \<open>Message\<close> or a \<open>Chatroom\<close>. A timestamp field
  must hold a valid \<open>Date\<close>: a string is not accepted in its place. An optional field
  may be missing or undefined.
\<close>

definition string_prop :: "(js_string \<times> js_value) list \<Rightarrow> js_string \<Rightarrow> js_string option" where
  "string_prop ps k = (case map_of ps k of Some (JString s) \<Rightarrow> Some s | _ \<Rightarrow> None)"

definition date_prop :: "(js_string \<times> js_value) list \<Rightarrow> js_string \<Rightarrow> date option" where
  "date_prop ps k = (case map_of ps k of Some (JDate (Some t)) \<Rightarrow> Some t | _ \<Rightarrow> None)"

definition optional_date_prop ::
  "(js_string \<times> js_value) list \<Rightarrow> js_string \<Rightarrow> date option option" where
  "optional_date_prop ps k =
     (case map_of ps k of
        None \<Rightarrow> Some None
      | Some JUndefined \<Rightarrow> Some None
      | Some (JDate (Some t)) \<Rightarrow> Some (Some t)
      | _ \<Rightarrow> None)"

definition optional_string_prop ::
  "(js_string \<times> js_value) list \<Rightarrow> js_string \<Rightarrow> js_string option option" where
  "optional_string_prop ps k =
     (case map_of ps k of
        None \<Rightarrow> Some None
      | Some JUndefined \<Rightarrow> Some None
      | Some (JString s) \<Rightarrow> Some (Some s)
      | _ \<Rightarrow> None)"

definition sender_of_js :: "js_string \<Rightarrow> sender option" where
  "sender_of_js s =
     (if s = lit ''user'' then Some SenderUser
      else if s = lit ''ai'' then Some SenderAi else None)"

fun message_of_js :: "js_value \<Rightarrow> message option" where
  "message_of_js (JObject ps) =
     (case string_prop ps (lit ''content'') of None \<Rightarrow> None | Some c \<Rightarrow>
      case Option.bind (string_prop ps (lit ''sender'')) sender_of_js of None \<Rightarrow> None | Some s \<Rightarrow>
      case date_prop ps (lit ''timestamp'') of None \<Rightarrow> None | Some t \<Rightarrow>
      case optional_string_prop ps (lit ''imageUrl'') of None \<Rightarrow> None | Some u \<Rightarrow>
      case string_prop ps (lit ''id'') of None \<Rightarrow> None | Some i \<Rightarrow>
        Some \<lparr>content = c, sender = s, timestamp = t, imageUrl = u, message_id = i\<rparr>)"
| "message_of_js v = None"

fun chatroom_of_js :: "js_value \<Rightarrow> chatroom option" where
  "chatroom_of_js (JObject ps) =
     (case string_prop ps (lit ''id'') of None \<Rightarrow> None | Some i \<Rightarrow>
      case string_prop ps (lit ''title'') of None \<Rightarrow> None | Some t \<Rightarrow>
      case map_of ps (lit ''messages'') of
        Some (JArray ms) \<Rightarrow>
          (case those (map message_of_js ms) of None \<Rightarrow> None | Some msgs \<Rightarrow>
           case date_prop ps (lit ''createdAt'') of None \<Rightarrow> None | Some c \<Rightarrow>
           case optional_date_prop ps (lit ''lastMessage'') of None \<Rightarrow> None | Some l \<Rightarrow>
             Some \<lparr>chatroom_id = i, title = t, messages = msgs, createdAt = c,
                   lastMessage = l\<rparr>)
      | _ \<Rightarrow> None)"
| "chatroom_of_js v = None"

section \<open>Example values\<close>

definition hello :: message_data where
  "hello = \<lparr>content = lit ''Hello'', sender = SenderUser, timestamp = 1000, imageUrl = None\<rparr>"

definition world :: message_data where
  "world = \<lparr>content = lit ''World'', sender = SenderAi, timestamp = 2000, imageUrl = None\<rparr>"

definition one_room :: app_state where
  "one_room = run [CreateChatroom (lit ''r1'') 10 None] initial_state"

definition two_rooms :: app_state where
  "two_rooms =
     run [CreateChatroom (lit ''r1'') 10 None, CreateChatroom (lit ''r2'') 20 None]
       initial_state"

text \<open>An environment whose clock stands at \<open>t\<close> and whose random suffix is \<open>r\<close>.\<close>

definition steady :: "int \<Rightarrow> js_string \<Rightarrow> environment" where
  "steady t r = \<lparr>now_for_id = (\<lambda>i. t), random_suffix = (\<lambda>i. r), now_for_timestamp = (\<lambda>i. t)\<rparr>"

text \<open>A state with two chatrooms, the older one holding two messages.\<close>

definition example_state :: app_state where
  "example_state =
     addMessage (lit ''m2'') (lit ''r1'') world
       (addMessage (lit ''m1'') (lit ''r1'') hello two_rooms)"

text \<open>
  A platform for the examples, for the value \<open>v\<close> that is written. Its dates are
  written as the decimal number of milliseconds and read back by \<open>read_int\<close>;
  \<open>new Date(null)\<close> is the epoch, as in ECMAScript. The text it writes is the same for
  every value, and parsing that text gives what \<open>JSON.parse\<close> gives for the text of
  \<open>v\<close>; every other text is a syntax error.
\<close>

definition read_int :: "js_string \<Rightarrow> int" where
  "read_int s =
     (case s of [] \<Rightarrow> 0 | u # r \<Rightarrow> if u = 45 then - int (undec r) else int (undec s))"

definition example_platform_for :: "js_value \<Rightarrow> platform" where
  "example_platform_for v =
     \<lparr>JSON_stringify = (\<lambda>w. lit ''{...}''),
      JSON_parse = (\<lambda>s. if s = lit ''{...}'' then Some (jsonified show_int v) else None),
      toISOString = show_int,
      new_Date = (\<lambda>w. case w of
                         JString s \<Rightarrow> Inr (Some (read_int s))
                       | JNull \<Rightarrow> Inr (Some 0)
                       | _ \<Rightarrow> Inr None)\<rparr>"

definition example_platform :: platform where
  "example_platform = example_platform_for (storage_value (partialize example_state))"

text \<open>
  The value \<open>{state, version}\<close> of a state with one chatroom whose \<open>createdAt\<close> and
  \<open>lastMessage\<close>, and whose only message's \<open>timestamp\<close>, are Invalid Dates; and
  what \<open>getItem\<close> reads back for it.
\<close>

definition invalid_dates_value :: js_value where
  "invalid_dates_value =
     JObject
       [(lit ''state'',
         JObject
           [(lit ''user'', JNull),
            (lit ''chatrooms'',
             JArray
               [JObject
                  [(lit ''id'', JString (lit ''r1'')),
                   (lit ''title'', JString (lit ''Hello'')),
                   (lit ''messages'',
                    JArray
                      [JObject
                         [(lit ''content'', JString (lit ''Hello'')),
                          (lit ''sender'', JString (lit ''user'')),
                          (lit ''timestamp'', JDate None),
                          (lit ''id'', JString (lit ''m1''))]]),
                   (lit ''createdAt'', JDate None),
                   (lit ''lastMessage'', JDate None)]]),
            (lit ''activeChatroomId'', JString (lit ''r1'')),
            (lit ''theme'', JString (lit ''light''))]),
        (lit ''version'', JNumber 0)]"

definition invalid_dates_read_back :: js_value where
  "invalid_dates_read_back =
     JObject
       [(lit ''state'',
         JObject
           [(lit ''user'', JNull),
            (lit ''chatrooms'',
             JArray
               [JObject
                  [(lit ''id'', JString (lit ''r1'')),
                   (lit ''title'', JString (lit ''Hello'')),
                   (lit ''messages'',
                    JArray
                      [JObject
                         [(lit ''content'', JString (lit ''Hello'')),
                          (lit ''sender'', JString (lit ''user'')),
                          (lit ''timestamp'', JDate (Some 0)),
                          (lit ''id'', JString (lit ''m1''))]]),
                   (lit ''createdAt'', JDate (Some 0)),
                   (lit ''lastMessage'', JUndefined)]]),
            (lit ''activeChatroomId'', JString (lit ''r1'')),
            (lit ''theme'', JString (lit ''light''))]),
        (lit ''version'', JNumber 0)]"

text \<open>
  Views of the chatroom \<open>c1\<close> with three real messages: after nine and after ten
  completed loads. \<open>stale_view\<close>: after nine loads a tenth is requested, a fourth real
  message arrives before its timer expires, so the reset effect runs, and then the timer
  expires.
\<close>

definition nine_pages_view :: view_state where
  "nine_pages_view =
     load_requests (lit ''c1'') 3 (replicate 9 (steady 100000000 (lit ''abc'')))
       (reset_effect 3 initial_view)"

definition exhausted_view :: view_state where
  "exhausted_view =
     load_requests (lit ''c1'') 3 (replicate 10 (steady 100000000 (lit ''abc'')))
       (reset_effect 3 initial_view)"

definition stale_view :: view_state where
  "stale_view =
     (case view_step (lit ''c1'') 3 Request (nine_pages_view, []) of
        (vs, timers) \<Rightarrow>
          fst (run_view (lit ''c1'') 4 [Timeout (steady 100001000 (lit ''abd''))]
                 (reset_effect 4 vs, timers)))"

section \<open>Properties of the store\<close>

lemma lit_Nil_iff: "lit s = [] \<longleftrightarrow> s = []"
  by (simp add: lit_def)

subsection \<open>Creating chatrooms\<close>

text \<open>
  C10: \<open>createChatroom\<close> called without a title, and likewise with the empty string,
  returns a chatroom titled exactly "New Chat"; whatever the argument, the new chatroom's
  title is not empty.
\<close>

theorem createChatroom_default_title:
  "title (fst (createChatroom uuid now None state)) = lit ''New Chat''
   \<and> title (fst (createChatroom uuid now (Some []) state)) = lit ''New Chat''
   \<and> title (fst (createChatroom uuid now title_arg state)) \<noteq> []"
  by (simp add: createChatroom_def Let_def lit_Nil_iff split: option.split)

subsection \<open>Deleting chatrooms\<close>

text \<open>
  C1: when the chatroom \<open>d\<close> is in the collection and is the active one,
  \<open>deleteChatroom d\<close> keeps exactly the chatrooms whose id is not \<open>d\<close>, in their
  order, and the active id becomes the id of the first remaining chatroom (the collection
  is kept most recent first), or null when no chatroom remains.
\<close>

theorem deleteChatroom_active:
  assumes "has_chatroom d state" and "activeChatroomId state = Some d"
  shows "chatrooms (deleteChatroom d state)
           = filter (\<lambda>room. chatroom_id room \<noteq> d) (chatrooms state)
         \<and> \<not> has_chatroom d (deleteChatroom d state)
         \<and> activeChatroomId (deleteChatroom d state)
           = (case chatrooms (deleteChatroom d state) of
                [] \<Rightarrow> None
              | room # _ \<Rightarrow> Some (chatroom_id room))"
  using assms
  by (auto simp: deleteChatroom_def has_chatroom_def Let_def list_ex_iff nth_Cons'
        split: list.split)

theorem deleteChatroom_active_witness:
  "has_chatroom (lit ''r2'') two_rooms \<and> activeChatroomId two_rooms = Some (lit ''r2'')
   \<and> map chatroom_id (chatrooms (deleteChatroom (lit ''r2'') two_rooms)) = [lit ''r1'']
   \<and> activeChatroomId (deleteChatroom (lit ''r2'') two_rooms) = Some (lit ''r1'')
   \<and> activeChatroomId (deleteChatroom (lit ''r1'') (deleteChatroom (lit ''r2'') two_rooms))
     = None"
proof -
  have h1: "has_chatroom (lit ''r2'') two_rooms"
    by (simp add: two_rooms_def has_chatroom_def createChatroom_def initial_state_def lit_def
          Let_def)
  have h2: "activeChatroomId two_rooms = Some (lit ''r2'')"
    by (simp add: two_rooms_def createChatroom_def Let_def)
  from deleteChatroom_active [OF h1 h2] h1 h2 show ?thesis
    by (simp add: two_rooms_def has_chatroom_def createChatroom_def deleteChatroom_def
          initial_state_def lit_def Let_def)
qed

text \<open>
  C2: for an id that matches no chatroom, \<open>deleteChatroom\<close> returns the state it was
  given (chatrooms, active id and \<open>isTyping\<close> included) and \<open>addMessage\<close> leaves the
  chatroom collection as it was. Both actions are total: the source has no \<open>throw\<close>
  on these paths and reads \<open>remainingChatrooms[0]\<close> only behind the length test.
\<close>

theorem unknown_id_noop:
  assumes "\<not> has_chatroom i state"
  shows "deleteChatroom i state = state
         \<and> chatrooms (addMessage uuid i messageData state) = chatrooms state"
proof -
  have "map (addMessage_room i m) (chatrooms state) = chatrooms state" for m
    using assms by (auto simp: has_chatroom_def list_ex_iff addMessage_room_def intro: map_idI)
  with assms show ?thesis
    by (simp add: deleteChatroom_def addMessage_def has_chatroom_def Let_def)
qed

theorem unknown_id_noop_witness:
  "\<not> has_chatroom (lit ''zz'') two_rooms
   \<and> deleteChatroom (lit ''zz'') two_rooms = two_rooms
   \<and> chatrooms (addMessage (lit ''m1'') (lit ''zz'') hello two_rooms) = chatrooms two_rooms"
proof -
  have h: "\<not> has_chatroom (lit ''zz'') two_rooms"
    by (simp add: two_rooms_def has_chatroom_def createChatroom_def initial_state_def lit_def
          Let_def)
  from unknown_id_noop [OF h, of "lit ''m1''" hello] h show ?thesis by simp
qed

subsection \<open>Titles\<close>

lemma addMessage_room_nonempty:
  "chatroom_id room = c \<Longrightarrow> messages (addMessage_room c m room) \<noteq> []"
  by (simp add: addMessage_room_def)

lemma addMessage_room_id: "chatroom_id (addMessage_room c m room) = chatroom_id room"
  by (simp add: addMessage_room_def)

lemma addMessage_room_keeps_title:
  "messages room \<noteq> [] \<Longrightarrow> title (addMessage_room c m room) = title room
     \<and> messages (addMessage_room c m room) \<noteq> []"
  by (simp add: addMessage_room_def)

lemma addMessage_nth:
  "i < length (chatrooms s) \<Longrightarrow>
   chatrooms (addMessage u c md s) ! i
     = addMessage_room c (message_data.extend md (message.fields u)) (chatrooms s ! i)"
  by (simp add: addMessage_def Let_def)

lemma addMessage_length: "length (chatrooms (addMessage u c md s)) = length (chatrooms s)"
  by (simp add: addMessage_def Let_def)

lemma later_messages_keep_title:
  "i < length (chatrooms s) \<Longrightarrow> messages (chatrooms s ! i) \<noteq> [] \<Longrightarrow>
   i < length (chatrooms (foldl (\<lambda>s' (u, c', md). addMessage u c' md s') s later))
   \<and> title (chatrooms (foldl (\<lambda>s' (u, c', md). addMessage u c' md s') s later) ! i)
     = title (chatrooms s ! i)"
proof (induction later arbitrary: s)
  case Nil
  then show ?case by simp
next
  case (Cons x later)
  obtain u c' md where x: "x = (u, c', md)" by (cases x)
  let ?s1 = "addMessage u c' md s"
  have len: "i < length (chatrooms ?s1)" using Cons.prems by (simp add: addMessage_length)
  have keep: "title (chatrooms ?s1 ! i) = title (chatrooms s ! i)"
             "messages (chatrooms ?s1 ! i) \<noteq> []"
    using Cons.prems by (simp_all add: addMessage_nth addMessage_room_keeps_title)
  from Cons.IH [OF len keep(2)] keep(1) show ?case by (simp add: x)
qed

text \<open>
  C3: let the chatroom at position \<open>i\<close> have id \<open>c\<close> and no messages. Then
  \<open>addMessage\<close> to \<open>c\<close> sets its title to the content of the message when the content
  has at most 50 code units, and to its first 50 code units followed by "..." otherwise;
  and after any further sequence \<open>later\<close> of \<open>addMessage\<close> calls (to this or to any
  other chatroom) the title is still that one.
\<close>

theorem addMessage_title:
  assumes "i < length (chatrooms state)"
      and "chatroom_id (chatrooms state ! i) = c"
      and "messages (chatrooms state ! i) = []"
  shows "title (chatrooms (addMessage u c md state) ! i)
           = (if length (content md) \<le> 50 then content md
              else take 50 (content md) @ lit ''...'')
         \<and> title (chatrooms
                    (foldl (\<lambda>s (u', c', md'). addMessage u' c' md' s)
                       (addMessage u c md state) later) ! i)
           = title (chatrooms (addMessage u c md state) ! i)"
proof -
  let ?s1 = "addMessage u c md state"
  have len: "i < length (chatrooms ?s1)" using assms(1) by (simp add: addMessage_length)
  have first: "title (chatrooms ?s1 ! i)
           = (if length (content md) \<le> 50 then content md
              else take 50 (content md) @ lit ''...'')"
    using assms by (simp add: addMessage_nth addMessage_room_def message_data.defs message.defs)
  have "messages (chatrooms ?s1 ! i) \<noteq> []"
    using assms by (simp add: addMessage_nth addMessage_room_nonempty)
  from later_messages_keep_title [OF len this] first show ?thesis by simp
qed

theorem addMessage_title_witness:
  "0 < length (chatrooms one_room)
   \<and> chatroom_id (chatrooms one_room ! 0) = lit ''r1''
   \<and> messages (chatrooms one_room ! 0) = []
   \<and> title (chatrooms (addMessage (lit ''m1'') (lit ''r1'') hello one_room) ! 0) = lit ''Hello''
   \<and> title (chatrooms (foldl (\<lambda>s (u', c', md'). addMessage u' c' md' s)
                       (addMessage (lit ''m1'') (lit ''r1'') hello one_room)
                       [(lit ''m2'', lit ''r1'', world)]) ! 0) = lit ''Hello''"
proof -
  have h1: "0 < length (chatrooms one_room)"
    by (simp add: one_room_def createChatroom_def Let_def)
  have h2: "chatroom_id (chatrooms one_room ! 0) = lit ''r1''"
    by (simp add: one_room_def createChatroom_def Let_def)
  have h3: "messages (chatrooms one_room ! 0) = []"
    by (simp add: one_room_def createChatroom_def Let_def)
  have c: "length (content hello) \<le> 50" "content hello = lit ''Hello''"
    by (simp_all add: hello_def lit_def)
  from addMessage_title [OF h1 h2 h3, of "lit ''m1''" hello "[(lit ''m2'', lit ''r1'', world)]"]
    h1 h2 h3 c show ?thesis by simp
qed

text \<open>
  C9, as stated, fails: a chatroom created with the title "Work" is titled "Hello" after
  its first message "Hello".
\<close>

theorem explicit_title_counterexample:
  "title (hd (chatrooms
       (addMessage (lit ''m1'') (lit ''r1'') hello
          (snd (createChatroom (lit ''r1'') 10 (Some (lit ''Work'')) initial_state)))))
     \<noteq> lit ''Work''"
  by (simp add: createChatroom_def addMessage_def addMessage_room_def hello_def initial_state_def
        lit_def Let_def message_data.defs message.defs)

text \<open>
  C9, amended: a non-empty title given to \<open>createChatroom\<close> is the title of the new
  chatroom, and the first \<open>addMessage\<close> to the new chatroom replaces the title by the
  one derived from the message, whether or not a title was given: the store keeps no
  record of where a title came from, and \<open>addMessage\<close> tests only that the message list
  is empty.
\<close>

theorem first_message_overrides_title:
  "title (fst (createChatroom uuid now (Some (t # ts)) state)) = t # ts
   \<and> title (hd (chatrooms
        (addMessage u (chatroom_id (fst (createChatroom uuid now title_arg state))) md
           (snd (createChatroom uuid now title_arg state)))))
     = derived_title (content md)"
  by (simp add: createChatroom_def addMessage_def addMessage_room_def derived_title_def
        Let_def message_data.defs message.defs)

subsection \<open>The active chatroom\<close>

lemma active_valid_deleteChatroom:
  assumes "active_valid s"
  shows "active_valid (deleteChatroom i s)"
proof (cases "has_chatroom i s")
  case False
  with assms show ?thesis by (simp add: deleteChatroom_def has_chatroom_def Let_def)
next
  case True
  define remaining where "remaining = filter (\<lambda>room. chatroom_id room \<noteq> i) (chatrooms s)"
  show ?thesis
  proof (cases "activeChatroomId s = Some i")
    case active: True
    show ?thesis
    proof (cases remaining)
      case Nil
      with True active show ?thesis
        by (simp add: deleteChatroom_def has_chatroom_def Let_def active_valid_def
              remaining_def [symmetric])
    next
      case (Cons r rs)
      with True active show ?thesis
        by (simp add: deleteChatroom_def has_chatroom_def Let_def active_valid_def
              remaining_def [symmetric])
    qed
  next
    case inactive: False
    show ?thesis
    proof (cases "activeChatroomId s")
      case None
      with True show ?thesis
        by (simp add: deleteChatroom_def has_chatroom_def Let_def active_valid_def)
    next
      case (Some a)
      with inactive have "a \<noteq> i" by simp
      with Some True assms show ?thesis
        by (auto simp: deleteChatroom_def has_chatroom_def Let_def active_valid_def list_ex_iff)
    qed
  qed
qed

lemma active_valid_addMessage: "active_valid s \<Longrightarrow> active_valid (addMessage u c md s)"
  by (auto simp: active_valid_def addMessage_def has_chatroom_def Let_def list_ex_iff
        addMessage_room_id split: option.splits)

lemma active_valid_step:
  "active_valid s \<Longrightarrow> (\<forall>i. a = SetActiveChatroom i \<longrightarrow> has_chatroom i s) \<Longrightarrow>
   active_valid (step a s)"
proof (cases a)
  case (DeleteChatroom i)
  assume "active_valid s" then show ?thesis
    by (simp add: DeleteChatroom active_valid_deleteChatroom)
next
  case (AddMessage u c md)
  assume "active_valid s" then show ?thesis
    by (simp add: AddMessage active_valid_addMessage)
qed (auto simp: active_valid_def has_chatroom_def setUser_def setAuthenticating_def
       setOtpSent_def createChatroom_def setActiveChatroom_def setTyping_def
       setSearchQuery_def setSidebarOpen_def setTheme_def Let_def split: option.splits)

lemma active_valid_run:
  "active_valid s \<Longrightarrow> selects_known acts s \<Longrightarrow> active_valid (run acts s)"
proof (induction acts arbitrary: s)
  case Nil
  then show ?case by simp
next
  case (Cons a acts)
  from Cons.prems have "active_valid (step a s)"
    by (intro active_valid_step) (auto split: action.splits)
  with Cons show ?case by simp
qed

text \<open>
  C4, as stated, fails: \<open>setActiveChatroom\<close> stores whatever id it is given, so from
  the initial state, which has no chatroom, \<open>setActiveChatroom("x")\<close> reaches a state
  whose active id names no chatroom.
\<close>

theorem active_valid_counterexample:
  "\<not> active_valid (run [SetActiveChatroom (lit ''x'')] initial_state)"
  by (simp add: active_valid_def has_chatroom_def setActiveChatroom_def initial_state_def)

text \<open>
  C4, amended: in every state reached from the initial state by a sequence of store
  actions in which each \<open>setActiveChatroom\<close> is given the id of a chatroom present at
  that moment, the active id is null or the id of a chatroom of the collection; and
  \<open>setActiveChatroom\<close> leaves a valid active id exactly when it is given the id of a
  chatroom of the collection.
\<close>

theorem active_valid_reachable:
  "(selects_known acts initial_state \<longrightarrow> active_valid (run acts initial_state))
   \<and> (active_valid (setActiveChatroom i s) \<longleftrightarrow> has_chatroom i s)"
proof -
  have "active_valid initial_state"
    by (simp add: active_valid_def initial_state_def)
  then have "active_valid (run acts initial_state)" if "selects_known acts initial_state"
    using that by (rule active_valid_run)
  moreover have "active_valid (setActiveChatroom i s) \<longleftrightarrow> has_chatroom i s"
    by (simp add: active_valid_def setActiveChatroom_def has_chatroom_def)
  ultimately show ?thesis by blast
qed

theorem active_valid_reachable_witness:
  "selects_known
     [CreateChatroom (lit ''r1'') 10 None, CreateChatroom (lit ''r2'') 20 None,
      SetActiveChatroom (lit ''r1''), DeleteChatroom (lit ''r1'')] initial_state
   \<and> active_valid
       (run [CreateChatroom (lit ''r1'') 10 None, CreateChatroom (lit ''r2'') 20 None,
             SetActiveChatroom (lit ''r1''), DeleteChatroom (lit ''r1'')] initial_state)"
proof -
  have h: "selects_known
     [CreateChatroom (lit ''r1'') 10 None, CreateChatroom (lit ''r2'') 20 None,
      SetActiveChatroom (lit ''r1''), DeleteChatroom (lit ''r1'')] initial_state"
    by (simp add: has_chatroom_def createChatroom_def initial_state_def lit_def Let_def)
  from active_valid_reachable
         [of "[CreateChatroom (lit ''r1'') 10 None, CreateChatroom (lit ''r2'') 20 None,
               SetActiveChatroom (lit ''r1''), DeleteChatroom (lit ''r1'')]"]
    h show ?thesis by blast
qed

section \<open>Properties of the message list\<close>

subsection \<open>Decimal representations\<close>

lemma unat_digit: "k < 10 \<Longrightarrow> unat (of_nat (48 + k) :: code_unit) = 48 + k"
  by (simp only: unat_of_nat) simp

lemma undec_dec: "undec (dec n) = n"
proof (induction n rule: dec.induct)
  case (1 n)
  show ?case
  proof (cases "n < 10")
    case True
    then show ?thesis using unat_digit [of n] by (subst dec.simps) (simp add: undec_def del: of_nat_add)
  next
    case False
    with 1 have "undec (dec (n div 10)) = n div 10" by simp
    moreover have "unat (of_nat (48 + n mod 10) :: code_unit) = 48 + n mod 10"
      by (rule unat_digit) simp
    ultimately show ?thesis using False
      by (subst dec.simps) (simp add: undec_def del: of_nat_add)
  qed
qed

lemma dec_inj: "dec m = dec n \<Longrightarrow> m = n"
  by (metis undec_dec)

lemma dec_no_dash: "45 \<notin> set (dec n)"
proof (induction n rule: dec.induct)
  case (1 n)
  have d: "(of_nat (48 + k) :: code_unit) \<noteq> 45" if "k < 10" for k
  proof
    assume eq: "(of_nat (48 + k) :: code_unit) = 45"
    have "48 + k = unat (of_nat (48 + k) :: code_unit)"
      by (simp only: unat_digit [OF that])
    also have "\<dots> = unat (45 :: code_unit)" by (simp only: eq)
    also have "\<dots> = 45" by simp
    finally show False by simp
  qed
  show ?case
  proof (cases "n < 10")
    case True
    then show ?thesis using d [of n] by (subst dec.simps) (simp del: of_nat_add)
  next
    case False
    with 1 have "45 \<notin> set (dec (n div 10))" by simp
    then show ?thesis using False d [of "n mod 10"] by (subst dec.simps) (simp del: of_nat_add)
  qed
qed

lemma split_at_separator:
  "x \<notin> set a \<Longrightarrow> x \<notin> set b \<Longrightarrow> a @ x # r = b @ x # r' \<Longrightarrow> a = b \<and> r = r'"
proof (induction a arbitrary: b)
  case Nil
  then show ?case by (cases b) auto
next
  case (Cons y a)
  then show ?case by (cases b) auto
qed

lemma page_in_id:
  "dec q @ lit ''-'' @ r = dec j @ lit ''-'' @ r' \<Longrightarrow> q = j"
proof -
  assume "dec q @ lit ''-'' @ r = dec j @ lit ''-'' @ r'"
  then have "dec q @ 45 # r = dec j @ 45 # r'" by (simp add: lit_def)
  from split_at_separator [OF dec_no_dash dec_no_dash this] show ?thesis
    by (simp add: dec_inj)
qed

subsection \<open>The page generator\<close>

lemma generate_loop_eq:
  "i \<le> MESSAGES_PER_PAGE \<Longrightarrow>
   generate_loop env c p i msgs = msgs @ map (dummy_message env c p) [i..<MESSAGES_PER_PAGE]"
proof (induction env c p i msgs rule: generate_loop.induct)
  case (1 env c p i msgs)
  show ?case
  proof (cases "i < MESSAGES_PER_PAGE")
    case True
    with 1 have "generate_loop env c p (i + 1) (msgs @ [dummy_message env c p i])
        = (msgs @ [dummy_message env c p i]) @ map (dummy_message env c p) [i + 1..<MESSAGES_PER_PAGE]"
      by simp
    with True show ?thesis
      by (subst generate_loop.simps) (simp add: upt_conv_Cons)
  next
    case False
    with 1 show ?thesis by (subst generate_loop.simps) simp
  qed
qed

lemma generateDummyMessages_eq:
  "generateDummyMessages env c p = rev (map (dummy_message env c p) [0..<MESSAGES_PER_PAGE])"
  by (simp add: generateDummyMessages_def generate_loop_eq)

lemma length_generateDummyMessages: "length (generateDummyMessages env c p) = 20"
  by (simp add: generateDummyMessages_eq MESSAGES_PER_PAGE_def)

lemma nth_generateDummyMessages:
  "k < 20 \<Longrightarrow> generateDummyMessages env c p ! k = dummy_message env c p (19 - k)"
  by (simp add: generateDummyMessages_eq MESSAGES_PER_PAGE_def rev_nth)

lemma sender_dummy_message:
  "sender (dummy_message env c p i) = (if (p * 20 + i) mod 3 = 0 then SenderUser else SenderAi)"
  by (simp add: dummy_message_def MESSAGES_PER_PAGE_def Let_def)

lemma timestamp_dummy_message:
  "timestamp (dummy_message env c p i) = now_for_timestamp env i - int ((p * 20 + i + 1) * 60000)"
  by (simp add: dummy_message_def MESSAGES_PER_PAGE_def Let_def)

lemma id_dummy_message:
  "message_id (dummy_message env c p i)
     = lit ''dummy-'' @ c @ lit ''-page'' @ dec p @ lit ''-''
       @ (dec (p * MESSAGES_PER_PAGE + i) @ lit ''-'' @ show_int (now_for_id env i) @ lit ''-''
          @ random_suffix env i)"
  by (simp add: dummy_message_def Let_def)

lemma content_dummy_message:
  "content (dummy_message env c p i) = content (dummy_message env' c' p i)"
  by (simp add: dummy_message_def Let_def)

text \<open>
  C8, as stated, fails: the id of a synthetic message contains \<open>Date.now()\<close> and a
  random suffix, and its timestamp is counted back from \<open>Date.now()\<close>, so two
  generations of the same chatroom and page, one millisecond apart, differ.
\<close>

theorem generateDummyMessages_counterexample:
  "generateDummyMessages (steady 100000000 (lit ''abc'')) (lit ''c1'') 0
     \<noteq> generateDummyMessages (steady 100000001 (lit ''abd'')) (lit ''c1'') 0"
proof
  assume "generateDummyMessages (steady 100000000 (lit ''abc'')) (lit ''c1'') 0
     = generateDummyMessages (steady 100000001 (lit ''abd'')) (lit ''c1'') 0"
  then have "map timestamp (generateDummyMessages (steady 100000000 (lit ''abc'')) (lit ''c1'') 0)
     = map timestamp (generateDummyMessages (steady 100000001 (lit ''abd'')) (lit ''c1'') 0)"
    by simp
  then show False
    by (simp add: generateDummyMessages_eq MESSAGES_PER_PAGE_def timestamp_dummy_message
          steady_def upt_rec rev_map)
qed

text \<open>
  C8, amended: for every chatroom id, page \<open>p\<close> and environment, the page has exactly
  20 messages; the message at position \<open>k\<close> is the one of the iteration \<open>19 - k\<close>, of
  global index \<open>p * 20 + (19 - k)\<close>: its sender is the user when the index is divisible
  by 3 and the AI otherwise, its timestamp is the clock reading of its iteration minus
  one minute per index, counted from 1, and its id is made of the chatroom id, the page,
  the index, the clock reading and the random suffix of its iteration. Sender and content
  are the same in every generation of the same page, whatever the environment. When the clock reads the same
  value \<open>t\<close> during the generation, every timestamp lies before \<open>t\<close> and each message
  is one minute later than the one before it: the page is ordered oldest first.
\<close>

theorem generateDummyMessages_page:
  "length (generateDummyMessages env c p) = 20
   \<and> (\<forall>k<20. sender (generateDummyMessages env c p ! k)
               = (if (p * 20 + (19 - k)) mod 3 = 0 then SenderUser else SenderAi)
             \<and> timestamp (generateDummyMessages env c p ! k)
               = now_for_timestamp env (19 - k) - int ((p * 20 + (19 - k) + 1) * 60000)
             \<and> message_id (generateDummyMessages env c p ! k)
               = lit ''dummy-'' @ c @ lit ''-page'' @ dec p @ lit ''-''
                 @ dec (p * 20 + (19 - k)) @ lit ''-'' @ show_int (now_for_id env (19 - k))
                 @ lit ''-'' @ random_suffix env (19 - k))
   \<and> map sender (generateDummyMessages env c p) = map sender (generateDummyMessages env' c p)
   \<and> map content (generateDummyMessages env c p) = map content (generateDummyMessages env' c p)
   \<and> ((\<forall>i<20. now_for_timestamp env i = t) \<longrightarrow>
        (\<forall>k<20. timestamp (generateDummyMessages env c p ! k) < t)
        \<and> (\<forall>k<19. timestamp (generateDummyMessages env c p ! (k + 1))
                    = timestamp (generateDummyMessages env c p ! k) + 60000))"
proof -
  have nth: "\<forall>k<20. sender (generateDummyMessages env c p ! k)
               = (if (p * 20 + (19 - k)) mod 3 = 0 then SenderUser else SenderAi)
             \<and> timestamp (generateDummyMessages env c p ! k)
               = now_for_timestamp env (19 - k) - int ((p * 20 + (19 - k) + 1) * 60000)
             \<and> message_id (generateDummyMessages env c p ! k)
               = lit ''dummy-'' @ c @ lit ''-page'' @ dec p @ lit ''-''
                 @ dec (p * 20 + (19 - k)) @ lit ''-'' @ show_int (now_for_id env (19 - k))
                 @ lit ''-'' @ random_suffix env (19 - k)"
    by (simp add: nth_generateDummyMessages sender_dummy_message timestamp_dummy_message
          id_dummy_message MESSAGES_PER_PAGE_def)
  have snd: "map sender (generateDummyMessages env c p)
             = map sender (generateDummyMessages env' c p)"
    by (simp add: generateDummyMessages_eq rev_map sender_dummy_message)
  have cnt: "map content (generateDummyMessages env c p)
             = map content (generateDummyMessages env' c p)"
    using content_dummy_message [of env c p _ env' c]
    by (simp add: generateDummyMessages_eq rev_map)
  have steady: "(\<forall>k<20. timestamp (generateDummyMessages env c p ! k) < t)
        \<and> (\<forall>k<19. timestamp (generateDummyMessages env c p ! (k + 1))
                    = timestamp (generateDummyMessages env c p ! k) + 60000)"
    if "\<forall>i<20. now_for_timestamp env i = t"
  proof (intro conjI allI impI)
    fix k :: nat assume "k < 20"
    with that show "timestamp (generateDummyMessages env c p ! k) < t"
      by (simp add: nth_generateDummyMessages timestamp_dummy_message)
  next
    fix k :: nat assume k: "k < 19"
    then have "19 - k = Suc (19 - (k + 1))" by simp
    with k that show "timestamp (generateDummyMessages env c p ! (k + 1))
                    = timestamp (generateDummyMessages env c p ! k) + 60000"
      by (simp add: nth_generateDummyMessages timestamp_dummy_message)
  qed
  from nth snd cnt steady show ?thesis
    by (simp only: length_generateDummyMessages) blast
qed

theorem generateDummyMessages_page_witness:
  "now_for_timestamp (steady 100000000 (lit ''abc'')) 0 = 100000000
   \<and> length (generateDummyMessages (steady 100000000 (lit ''abc'')) (lit ''c1'') 1) = 20
   \<and> sender (generateDummyMessages (steady 100000000 (lit ''abc'')) (lit ''c1'') 1 ! 18)
       = SenderUser
   \<and> sender (generateDummyMessages (steady 100000000 (lit ''abc'')) (lit ''c1'') 1 ! 19)
       = SenderAi
   \<and> timestamp (generateDummyMessages (steady 100000000 (lit ''abc'')) (lit ''c1'') 1 ! 19)
       = 98740000
   \<and> timestamp (generateDummyMessages (steady 100000000 (lit ''abc'')) (lit ''c1'') 1 ! 19)
       = timestamp (generateDummyMessages (steady 100000000 (lit ''abc'')) (lit ''c1'') 1 ! 18)
         + 60000"
proof -
  have h: "\<forall>i<20. now_for_timestamp (steady 100000000 (lit ''abc'')) i = 100000000"
    by (simp add: steady_def)
  from generateDummyMessages_page
         [of "steady 100000000 (lit ''abc'')" "lit ''c1''" 1
             "steady 100000000 (lit ''abc'')" 100000000]
  have "length (generateDummyMessages (steady 100000000 (lit ''abc'')) (lit ''c1'') 1) = 20"
    and nth: "\<forall>k<20.
         sender (generateDummyMessages (steady 100000000 (lit ''abc'')) (lit ''c1'') 1 ! k)
           = (if (1 * 20 + (19 - k)) mod 3 = 0 then SenderUser else SenderAi)
         \<and> timestamp (generateDummyMessages (steady 100000000 (lit ''abc'')) (lit ''c1'') 1 ! k)
           = now_for_timestamp (steady 100000000 (lit ''abc'')) (19 - k)
             - int ((1 * 20 + (19 - k) + 1) * 60000)
         \<and> message_id (generateDummyMessages (steady 100000000 (lit ''abc'')) (lit ''c1'') 1 ! k)
           = lit ''dummy-'' @ lit ''c1'' @ lit ''-page'' @ dec 1 @ lit ''-''
             @ dec (1 * 20 + (19 - k)) @ lit ''-''
             @ show_int (now_for_id (steady 100000000 (lit ''abc'')) (19 - k))
             @ lit ''-'' @ random_suffix (steady 100000000 (lit ''abc'')) (19 - k)"
    and apart: "\<forall>k<19.
         timestamp (generateDummyMessages (steady 100000000 (lit ''abc'')) (lit ''c1'') 1 ! (k + 1))
           = timestamp (generateDummyMessages (steady 100000000 (lit ''abc'')) (lit ''c1'') 1 ! k)
             + 60000"
    using h by blast+
  moreover from nth have
    "sender (generateDummyMessages (steady 100000000 (lit ''abc'')) (lit ''c1'') 1 ! 18)
       = SenderUser"
    "sender (generateDummyMessages (steady 100000000 (lit ''abc'')) (lit ''c1'') 1 ! 19)
       = SenderAi"
    "timestamp (generateDummyMessages (steady 100000000 (lit ''abc'')) (lit ''c1'') 1 ! 19)
       = 98740000"
    by (simp_all add: steady_def)
  moreover from apart have
    "timestamp (generateDummyMessages (steady 100000000 (lit ''abc'')) (lit ''c1'') 1 ! (18 + 1))
       = timestamp (generateDummyMessages (steady 100000000 (lit ''abc'')) (lit ''c1'') 1 ! 18)
         + 60000"
    by (rule allE [where x = 18]) simp
  ultimately show ?thesis by (simp add: steady_def)
qed

subsection \<open>Loading older messages\<close>

lemma id_generateDummyMessages:
  assumes "m \<in> set (generateDummyMessages env c p)"
  shows "\<exists>r. message_id m = lit ''dummy-'' @ c @ lit ''-page'' @ dec p @ lit ''-'' @ r"
proof -
  from assms obtain i where "m = dummy_message env c p i"
    by (auto simp: generateDummyMessages_eq)
  then show ?thesis using id_dummy_message [of env c p i] by blast
qed

lemma filter_new_page:
  assumes "\<forall>m\<in>set prev. \<exists>q<j. \<exists>r.
             message_id m = lit ''dummy-'' @ c @ lit ''-page'' @ dec q @ lit ''-'' @ r"
  shows "filter (\<lambda>msg. message_id msg \<notin> set (map message_id prev))
           (generateDummyMessages env c j) = generateDummyMessages env c j"
proof -
  have "message_id msg \<notin> set (map message_id prev)"
    if new: "msg \<in> set (generateDummyMessages env c j)" for msg
  proof
    assume "message_id msg \<in> set (map message_id prev)"
    then obtain m where m: "m \<in> set prev" "message_id m = message_id msg" by auto
    with assms obtain q r where q: "q < j"
      "message_id m = lit ''dummy-'' @ c @ lit ''-page'' @ dec q @ lit ''-'' @ r" by blast
    from id_generateDummyMessages [OF new] obtain r' where
      "message_id msg = lit ''dummy-'' @ c @ lit ''-page'' @ dec j @ lit ''-'' @ r'" by blast
    with m q have "dec q @ lit ''-'' @ r = dec j @ lit ''-'' @ r'" by simp
    then have "q = j" by (rule page_in_id)
    with q show False by simp
  qed
  then show ?thesis by (simp add: filter_id_conv)
qed

lemma load_request_exhausted:
  "\<not> hasMoreMessages vs \<Longrightarrow> load_request c n env vs = vs"
  by (simp add: load_request_def loadOlderMessages_def)

lemma load_request_page:
  assumes "0 < n" "\<not> loadingOlder vs" "hasMoreMessages vs" "page vs < 10"
      and "\<forall>m\<in>set (olderMessages vs). \<exists>q<page vs. \<exists>r.
             message_id m = lit ''dummy-'' @ c @ lit ''-page'' @ dec q @ lit ''-'' @ r"
  shows "load_request c n env vs
           = vs\<lparr>hasMoreMessages := (page vs < 9),
                olderMessages := generateDummyMessages env c (page vs) @ olderMessages vs,
                page := page vs + 1,
                loadingOlder := False\<rparr>"
  using assms filter_new_page [OF assms(5), of env]
  by (auto simp: load_request_def loadOlderMessages_def load_timeout_def Let_def
        length_generateDummyMessages MESSAGES_PER_PAGE_def)

lemma load_requests_pages:
  assumes "0 < n" "\<not> loadingOlder vs" "hasMoreMessages vs = (page vs < 10)" "page vs \<le> 10"
      and "\<forall>m\<in>set (olderMessages vs). \<exists>q<page vs. \<exists>r.
             message_id m = lit ''dummy-'' @ c @ lit ''-page'' @ dec q @ lit ''-'' @ r"
  shows "page (load_requests c n envs vs) = min (page vs + length envs) 10
       \<and> olderMessages (load_requests c n envs vs)
           = concat (rev (map (\<lambda>(q, env). generateDummyMessages env c q)
                            (zip [page vs..<10] envs))) @ olderMessages vs
       \<and> hasMoreMessages (load_requests c n envs vs) = (page vs + length envs < 10)
       \<and> \<not> loadingOlder (load_requests c n envs vs)"
  using assms
proof (induction envs arbitrary: vs)
  case Nil
  then show ?case by simp
next
  case (Cons env envs)
  show ?case
  proof (cases "page vs < 10")
    case False
    with Cons.prems have p: "page vs = 10" "\<not> hasMoreMessages vs" by simp_all
    from Cons.IH [OF Cons.prems] p show ?thesis
      by (simp add: load_request_exhausted)
  next
    case True
    let ?vs' = "load_request c n env vs"
    from True Cons.prems have step: "?vs'
           = vs\<lparr>hasMoreMessages := (page vs < 9),
                olderMessages := generateDummyMessages env c (page vs) @ olderMessages vs,
                page := page vs + 1,
                loadingOlder := False\<rparr>"
      by (intro load_request_page) simp_all
    have ids: "\<forall>m\<in>set (olderMessages ?vs'). \<exists>q<page ?vs'. \<exists>r.
             message_id m = lit ''dummy-'' @ c @ lit ''-page'' @ dec q @ lit ''-'' @ r"
    proof
      fix m assume "m \<in> set (olderMessages ?vs')"
      then consider "m \<in> set (generateDummyMessages env c (page vs))"
        | "m \<in> set (olderMessages vs)" by (auto simp: step)
      then show "\<exists>q<page ?vs'. \<exists>r.
             message_id m = lit ''dummy-'' @ c @ lit ''-page'' @ dec q @ lit ''-'' @ r"
      proof cases
        case 1
        from id_generateDummyMessages [OF this] show ?thesis by (auto simp: step)
      next
        case 2
        with Cons.prems(5) obtain q r where "q < page vs"
          "message_id m = lit ''dummy-'' @ c @ lit ''-page'' @ dec q @ lit ''-'' @ r" by blast
        then show ?thesis by (auto simp: step intro: less_SucI)
      qed
    qed
    have "page (load_requests c n envs ?vs') = min (page ?vs' + length envs) 10
       \<and> olderMessages (load_requests c n envs ?vs')
           = concat (rev (map (\<lambda>(q, env). generateDummyMessages env c q)
                            (zip [page ?vs'..<10] envs))) @ olderMessages ?vs'
       \<and> hasMoreMessages (load_requests c n envs ?vs') = (page ?vs' + length envs < 10)
       \<and> \<not> loadingOlder (load_requests c n envs ?vs')"
      using True Cons.prems(1) ids by (intro Cons.IH) (auto simp: step)
    moreover have "[page vs..<10] = page vs # [page ?vs'..<10]"
      using True by (simp add: step upt_conv_Cons)
    ultimately show ?thesis by (simp add: step)
  qed
qed

subsection \<open>Views between two runs of the reset effect\<close>

lemma load_timeout_page:
  assumes "page vs < 10"
      and "\<forall>m\<in>set (olderMessages vs). \<exists>q<page vs. \<exists>r.
             message_id m = lit ''dummy-'' @ c @ lit ''-page'' @ dec q @ lit ''-'' @ r"
  shows "load_timeout env \<lparr>load_chatroomId = c, load_page = page vs\<rparr> vs
           = vs\<lparr>hasMoreMessages := (hasMoreMessages vs \<and> page vs < 9),
                olderMessages := generateDummyMessages env c (page vs) @ olderMessages vs,
                page := page vs + 1,
                loadingOlder := False\<rparr>"
  using assms(1) filter_new_page [OF assms(2), of env]
  by (auto simp: load_timeout_def Let_def length_generateDummyMessages MESSAGES_PER_PAGE_def)

lemma ids_after_page:
  assumes "\<forall>m\<in>set older. \<exists>q<j. \<exists>r.
             message_id m = lit ''dummy-'' @ c @ lit ''-page'' @ dec q @ lit ''-'' @ r"
  shows "\<forall>m\<in>set (generateDummyMessages env c j @ older). \<exists>q<j + 1. \<exists>r.
             message_id m = lit ''dummy-'' @ c @ lit ''-page'' @ dec q @ lit ''-'' @ r"
proof
  fix m assume "m \<in> set (generateDummyMessages env c j @ older)"
  then consider "m \<in> set (generateDummyMessages env c j)" | "m \<in> set older" by auto
  then show "\<exists>q<j + 1. \<exists>r.
             message_id m = lit ''dummy-'' @ c @ lit ''-page'' @ dec q @ lit ''-'' @ r"
  proof cases
    case 1
    from id_generateDummyMessages [OF this] show ?thesis by auto
  next
    case 2
    with assms obtain q r where "q < j"
      "message_id m = lit ''dummy-'' @ c @ lit ''-page'' @ dec q @ lit ''-'' @ r" by blast
    then show ?thesis by (auto intro: less_SucI)
  qed
qed

lemma view_step_invariant:
  assumes "0 < n" and inv: "view_invariant c (vs, timers)"
  shows "view_invariant c (view_step c n ev (vs, timers))"
proof (cases ev)
  case Request
  with assms show ?thesis
    by (auto simp: view_invariant_def loadOlderMessages_def)
next
  case (Timeout env)
  show ?thesis
  proof (cases "loadingOlder vs")
    case False
    with inv Timeout show ?thesis by (simp add: view_invariant_def)
  next
    case True
    with inv have t: "timers = [\<lparr>load_chatroomId = c, load_page = page vs\<rparr>]"
      and p: "page vs < 10" and h: "hasMoreMessages vs"
      and len: "length (olderMessages vs) = 20 * page vs"
      and ids: "\<forall>m\<in>set (olderMessages vs). \<exists>q<page vs. \<exists>r.
              message_id m = lit ''dummy-'' @ c @ lit ''-page'' @ dec q @ lit ''-'' @ r"
      by (simp_all add: view_invariant_def)
    from ids_after_page [OF ids, of env] p h len
    show ?thesis
      by (simp add: Timeout t load_timeout_page [OF p ids] view_invariant_def
            length_generateDummyMessages)
  qed
qed

lemma run_view_invariant:
  "0 < n \<Longrightarrow> view_invariant c v \<Longrightarrow> view_invariant c (run_view c n evs v)"
proof (induction evs arbitrary: v)
  case Nil
  then show ?case by simp
next
  case (Cons ev evs)
  obtain vs timers where v: "v = (vs, timers)" by (cases v)
  from Cons.prems have "view_invariant c (view_step c n ev v)"
    by (simp add: v view_step_invariant)
  with Cons show ?case by simp
qed

lemma view_step_keeps_exhausted:
  "\<not> hasMoreMessages (fst v) \<Longrightarrow> \<not> hasMoreMessages (fst (view_step c n ev v))"
proof (cases v)
  case (Pair vs timers)
  assume "\<not> hasMoreMessages (fst v)"
  with Pair show ?thesis
    by (cases ev; cases timers)
       (simp_all add: loadOlderMessages_def load_timeout_def Let_def)
qed

lemma run_view_keeps_exhausted:
  "\<not> hasMoreMessages (fst v) \<Longrightarrow> \<not> hasMoreMessages (fst (run_view c n evs v))"
  by (induction evs arbitrary: v) (simp_all add: view_step_keeps_exhausted)

lemma run_view_request_timeout:
  "fst (run_view c n [Request, Timeout env] (vs, [])) = load_request c n env vs"
  by (simp add: load_request_def split: prod.split option.split)


lemma length_pages:
  "length (concat (rev (map (\<lambda>(q, env). generateDummyMessages env c q) (zip qs es))))
     = 20 * min (length qs) (length es)"
proof (induction qs arbitrary: es)
  case Nil
  then show ?case by simp
next
  case (Cons q qs)
  then show ?case by (cases es) (simp_all add: length_generateDummyMessages)
qed

lemma load_requests_length:
  assumes "0 < n"
  shows "length (olderMessages (load_requests c n envs (reset_effect n vs0)))
           = 20 * min (length envs) 10
         \<and> page (load_requests c n envs (reset_effect n vs0)) = min (length envs) 10
         \<and> hasMoreMessages (load_requests c n envs (reset_effect n vs0)) = (length envs < 10)
         \<and> \<not> loadingOlder (load_requests c n envs (reset_effect n vs0))"
proof -
  have "olderMessages (load_requests c n envs (reset_effect n vs0))
          = concat (rev (map (\<lambda>(q, env). generateDummyMessages env c q) (zip [0..<10] envs)))"
    and rest: "page (load_requests c n envs (reset_effect n vs0)) = min (length envs) 10"
      "hasMoreMessages (load_requests c n envs (reset_effect n vs0)) = (length envs < 10)"
      "\<not> loadingOlder (load_requests c n envs (reset_effect n vs0))"
    using load_requests_pages [of n "reset_effect n vs0" c envs] assms
    by (simp_all add: reset_effect_def)
  then have "length (olderMessages (load_requests c n envs (reset_effect n vs0)))
               = 20 * min (length [0..<10]) (length envs)"
    by (simp only: length_pages)
  with rest show ?thesis by (simp add: min.commute)
qed

text \<open>
  C7, as stated, fails. After ten completed loads "has more" is false and 200 older
  messages are held; when a fourth real message then arrives in the same chatroom, the
  reset effect, which depends on \<open>messages.length\<close>, sets "has more" to true again and
  drops the older messages. And since no timer is cancelled, a load of page 9 that is
  pending when the reset effect runs is applied to the fresh view, which is then
  exhausted after one page of 20 messages.
\<close>

theorem pagination_counterexample:
  "\<not> hasMoreMessages exhausted_view
   \<and> length (olderMessages exhausted_view) = 200
   \<and> hasMoreMessages (reset_effect 4 exhausted_view)
   \<and> olderMessages (reset_effect 4 exhausted_view) = []
   \<and> \<not> hasMoreMessages stale_view
   \<and> page stale_view = 1
   \<and> length (olderMessages stale_view) = 20"
proof -
  have ten: "\<not> hasMoreMessages exhausted_view" "length (olderMessages exhausted_view) = 200"
    using load_requests_length [of 3 "lit ''c1''" "replicate 10 (steady 100000000 (lit ''abc''))"
            initial_view]
    by (simp_all add: exhausted_view_def)
  have nine: "page nine_pages_view = 9" "hasMoreMessages nine_pages_view"
    "\<not> loadingOlder nine_pages_view"
    using load_requests_length [of 3 "lit ''c1''" "replicate 9 (steady 100000000 (lit ''abc''))"
            initial_view]
    by (simp_all add: nine_pages_view_def)
  have stale: "stale_view
      = load_timeout (steady 100001000 (lit ''abd''))
          \<lparr>load_chatroomId = lit ''c1'', load_page = 9\<rparr>
          (reset_effect 4 (nine_pages_view\<lparr>loadingOlder := True\<rparr>))"
    using nine by (simp add: stale_view_def loadOlderMessages_def)
  have "\<not> hasMoreMessages stale_view" "page stale_view = 1"
    "length (olderMessages stale_view) = 20"
    by (simp_all add: stale load_timeout_def reset_effect_def Let_def
          length_generateDummyMessages)
  with ten show ?thesis by (simp add: reset_effect_def)
qed

text \<open>
  C7, amended: take a view over a chatroom with \<open>n > 0\<close> real messages, as the reset
  effect leaves it, and let the reset effect not run again. When load requests are
  issued one after the other, each completed before the next (\<open>envs\<close> lists what the
  completions read), the older messages are the pages 0, 1, ... up to page 9 at most,
  the latest in front, 20 messages each: 200 messages once ten requests were made;
  "has more" is true exactly until the tenth page has arrived, and further requests
  schedule nothing and change nothing. Along every sequence \<open>evs\<close> of requests and
  timer expiries, in any order, at most ten pages are loaded, the older messages are 20
  for each page loaded, "has more" is true exactly while fewer than ten pages have
  arrived, and at most one load is pending. A request followed by the expiry of its
  timer is one completed load. In any state, "has more" once false stays false under
  requests and expiries, and a request made while a load is pending or when "has more"
  is false is without effect. For a chatroom without real messages the reset effect
  reports no more history, and no load request, in any state, schedules a load.
\<close>

theorem pagination_ten_pages:
  "(0 < n \<longrightarrow>
      page (load_requests c n envs (reset_effect n vs0)) = min (length envs) 10
    \<and> olderMessages (load_requests c n envs (reset_effect n vs0))
        = concat (rev (map (\<lambda>(q, env). generateDummyMessages env c q) (zip [0..<10] envs)))
    \<and> length (olderMessages (load_requests c n envs (reset_effect n vs0)))
        = 20 * min (length envs) 10
    \<and> hasMoreMessages (load_requests c n envs (reset_effect n vs0)) = (length envs < 10)
    \<and> \<not> loadingOlder (load_requests c n envs (reset_effect n vs0))
    \<and> (10 \<le> length envs \<longrightarrow>
         loadOlderMessages c n (load_requests c n envs (reset_effect n vs0))
           = (load_requests c n envs (reset_effect n vs0), None))
    \<and> page (fst (run_view c n evs (reset_effect n vs0, []))) \<le> 10
    \<and> length (olderMessages (fst (run_view c n evs (reset_effect n vs0, []))))
        = 20 * page (fst (run_view c n evs (reset_effect n vs0, [])))
    \<and> hasMoreMessages (fst (run_view c n evs (reset_effect n vs0, [])))
        = (page (fst (run_view c n evs (reset_effect n vs0, []))) < 10)
    \<and> length (snd (run_view c n evs (reset_effect n vs0, []))) \<le> 1)
   \<and> fst (run_view c n [Request, Timeout env] (vs, [])) = load_request c n env vs
   \<and> (\<not> hasMoreMessages vs \<longrightarrow> \<not> hasMoreMessages (fst (run_view c n evs (vs, timers))))
   \<and> (loadingOlder vs \<or> \<not> hasMoreMessages vs \<longrightarrow> loadOlderMessages c n vs = (vs, None))
   \<and> \<not> hasMoreMessages (reset_effect 0 vs0)
   \<and> loadOlderMessages c 0 (reset_effect 0 vs0) = (reset_effect 0 vs0, None)
   \<and> snd (loadOlderMessages c 0 vs) = None"
proof -
  let ?end = "load_requests c n envs (reset_effect n vs0)"
  let ?v = "run_view c n evs (reset_effect n vs0, [])"
  have main: "page ?end = min (length envs) 10
    \<and> olderMessages ?end
        = concat (rev (map (\<lambda>(q, env). generateDummyMessages env c q) (zip [0..<10] envs)))
    \<and> hasMoreMessages ?end = (length envs < 10)
    \<and> \<not> loadingOlder ?end" if "0 < n"
    using load_requests_pages [of n "reset_effect n vs0" c envs] that
    by (simp add: reset_effect_def)
  have stop: "loadOlderMessages c n ?end = (?end, None)" if "0 < n" "10 \<le> length envs"
    using main [OF that(1)] that(2) by (simp add: loadOlderMessages_def)
  have any: "page (fst ?v) \<le> 10
    \<and> length (olderMessages (fst ?v)) = 20 * page (fst ?v)
    \<and> hasMoreMessages (fst ?v) = (page (fst ?v) < 10)
    \<and> length (snd ?v) \<le> 1" if "0 < n"
  proof -
    from that have "view_invariant c (reset_effect n vs0, [])"
      by (simp add: view_invariant_def reset_effect_def)
    with that have "view_invariant c ?v" by (rule run_view_invariant)
    then show ?thesis
      by (cases ?v) (auto simp: view_invariant_def split: if_splits)
  qed
  have pair: "fst (run_view c n [Request, Timeout env] (vs, [])) = load_request c n env vs"
    by (rule run_view_request_timeout)
  have stays: "\<not> hasMoreMessages (fst (run_view c n evs (vs, timers)))"
    if "\<not> hasMoreMessages vs"
    using run_view_keeps_exhausted [of "(vs, timers)" c n evs] that by simp
  have zero: "\<not> hasMoreMessages (reset_effect 0 vs0)
     \<and> loadOlderMessages c 0 (reset_effect 0 vs0) = (reset_effect 0 vs0, None)
     \<and> snd (loadOlderMessages c 0 vs) = None"
    by (simp add: reset_effect_def loadOlderMessages_def)
  have noop: "loadOlderMessages c n vs = (vs, None)" if "loadingOlder vs \<or> \<not> hasMoreMessages vs"
    using that by (auto simp: loadOlderMessages_def)
  have seq: "0 < n \<longrightarrow>
      page ?end = min (length envs) 10
    \<and> olderMessages ?end
        = concat (rev (map (\<lambda>(q, env). generateDummyMessages env c q) (zip [0..<10] envs)))
    \<and> length (olderMessages ?end) = 20 * min (length envs) 10
    \<and> hasMoreMessages ?end = (length envs < 10)
    \<and> \<not> loadingOlder ?end
    \<and> (10 \<le> length envs \<longrightarrow> loadOlderMessages c n ?end = (?end, None))"
    using main stop length_pages [of c "[0..<10]" envs] by (simp add: min.commute)
  from seq any pair stays zero noop show ?thesis by blast
qed

theorem pagination_ten_pages_witness:
  "(0::nat) < 3
   \<and> page (load_requests (lit ''c1'') 3 (replicate 12 (steady 100000000 (lit ''abc'')))
             (reset_effect 3 initial_view)) = 10
   \<and> length (olderMessages
       (load_requests (lit ''c1'') 3 (replicate 12 (steady 100000000 (lit ''abc'')))
          (reset_effect 3 initial_view))) = 200
   \<and> \<not> hasMoreMessages
       (load_requests (lit ''c1'') 3 (replicate 12 (steady 100000000 (lit ''abc'')))
          (reset_effect 3 initial_view))
   \<and> snd (loadOlderMessages (lit ''c1'') 3
       (load_requests (lit ''c1'') 3 (replicate 12 (steady 100000000 (lit ''abc'')))
          (reset_effect 3 initial_view))) = None
   \<and> page (fst (run_view (lit ''c1'') 3
                  [Request, Request, Timeout (steady 100000000 (lit ''abc'')), Request]
                  (reset_effect 3 initial_view, []))) \<le> 10
   \<and> length (snd (run_view (lit ''c1'') 3
                  [Request, Request, Timeout (steady 100000000 (lit ''abc'')), Request]
                  (reset_effect 3 initial_view, []))) \<le> 1"
proof -
  let ?envs = "replicate 12 (steady 100000000 (lit ''abc''))"
  let ?evs = "[Request, Request, Timeout (steady 100000000 (lit ''abc'')), Request]"
  let ?vs = "load_requests (lit ''c1'') 3 ?envs (reset_effect 3 initial_view)"
  let ?v = "run_view (lit ''c1'') 3 ?evs (reset_effect 3 initial_view, [])"
  have h: "(0::nat) < 3" by simp
  from pagination_ten_pages
         [where n = 3 and c = "lit ''c1''" and envs = ?envs and vs0 = initial_view
            and evs = ?evs] h
  have "page ?vs = min (length ?envs) 10"
    and "length (olderMessages ?vs) = 20 * min (length ?envs) 10"
    and "hasMoreMessages ?vs = (length ?envs < 10)"
    and "10 \<le> length ?envs \<longrightarrow> loadOlderMessages (lit ''c1'') 3 ?vs = (?vs, None)"
    and "page (fst ?v) \<le> 10"
    and "length (snd ?v) \<le> 1"
    by blast+
  then show ?thesis by simp
qed

section \<open>Properties of the persistence layer\<close>

subsection \<open>The example platform\<close>

lemma dec_not_Nil: "dec n \<noteq> []"
  by (subst dec.simps) simp

lemma read_int_show_int: "read_int (show_int k) = k"
proof (cases "k < 0")
  case True
  then show ?thesis by (simp add: read_int_def show_int_def lit_def undec_dec)
next
  case False
  obtain u r where ur: "dec (nat k) = u # r"
    using dec_not_Nil [of "nat k"] by (cases "dec (nat k)") auto
  with dec_no_dash [of "nat k"] have "u \<noteq> 45" by auto
  with False ur undec_dec [of "nat k"] show ?thesis by (simp add: read_int_def show_int_def)
qed

lemma show_int_not_Nil: "show_int k \<noteq> []"
  by (simp add: show_int_def dec_not_Nil lit_def)

subsection \<open>Reading a missing or unparseable blob\<close>

text \<open>
  C6: when \<open>localStorage\<close> holds nothing under the name, or the empty string, or a
  text on which \<open>JSON.parse\<close> throws, \<open>getItem\<close> returns null. It does so by
  returning: the result of \<open>getItem\<close> is a value or null for every content of the
  storage, since every exception raised after \<open>localStorage.getItem\<close> is caught.
\<close>

theorem getItem_absent_or_corrupt:
  assumes "storage name = None \<or> storage name = Some []
           \<or> (\<exists>item. storage name = Some item \<and> JSON_parse P item = None)"
  shows "getItem P storage name = None"
  using assms by (auto simp: getItem_def)

theorem getItem_absent_or_corrupt_witness:
  "getItem example_platform Map.empty (lit ''gemini-app-storage'') = None
   \<and> JSON_parse example_platform (lit ''{oops'') = None
   \<and> getItem example_platform [lit ''gemini-app-storage'' \<mapsto> lit ''{oops'']
       (lit ''gemini-app-storage'') = None"
proof -
  have absent: "getItem example_platform Map.empty (lit ''gemini-app-storage'') = None"
    using getItem_absent_or_corrupt [of Map.empty "lit ''gemini-app-storage''" example_platform]
    by simp
  have h: "JSON_parse example_platform (lit ''{oops'') = None"
    by (simp add: example_platform_def example_platform_for_def lit_def)
  have corrupt: "getItem example_platform [lit ''gemini-app-storage'' \<mapsto> lit ''{oops'']
       (lit ''gemini-app-storage'') = None"
    using getItem_absent_or_corrupt
            [of "[lit ''gemini-app-storage'' \<mapsto> lit ''{oops'']" "lit ''gemini-app-storage''"
                example_platform] h
    by simp
  from absent h corrupt show ?thesis by simp
qed

subsection \<open>Writing and reading back\<close>

lemma map_result_map:
  "(\<And>x. x \<in> set xs \<Longrightarrow> f (g x) = Inr (h x)) \<Longrightarrow> map_result f (map g xs) = Inr (map h xs)"
  by (induction xs) simp_all

lemma message_of_js_of_message: "message_of_js (js_of_message m) = Some m"
  by (cases "sender m"; cases "imageUrl m")
     (simp_all add: js_of_message_def string_prop_def date_prop_def optional_string_prop_def
        sender_of_js_def lit_def)

lemma those_messages: "those (map (message_of_js \<circ> js_of_message) ms) = Some ms"
  by (induction ms) (simp_all add: message_of_js_of_message)

lemma revive_message_js_of_message:
  assumes "new_Date P (JString (toISOString P (timestamp m))) = Inr (Some (timestamp m))"
  shows "revive_message P (jsonified (toISOString P) (js_of_message m)) = Inr (js_of_message m)"
  using assms
  by (cases "imageUrl m") (simp_all add: js_of_message_def revive_message_def lit_def)

lemma revive_messages:
  assumes "\<forall>t\<in>set (map timestamp ms). new_Date P (JString (toISOString P t)) = Inr (Some t)"
  shows "array_map (revive_message P)
           (JArray (map (jsonified (toISOString P)) (map js_of_message ms)))
           = Inr (JArray (map js_of_message ms))"
  using map_result_map
          [of ms "revive_message P" "\<lambda>m. jsonified (toISOString P) (js_of_message m)"
              js_of_message]
    revive_message_js_of_message [of P] assms
  by (simp add: comp_def)

lemma revive_room_js_of_chatroom:
  assumes "\<forall>t\<in>set (chatroom_dates room).
             toISOString P t \<noteq> [] \<and> new_Date P (JString (toISOString P t)) = Inr (Some t)"
  shows "\<exists>v. revive_room P (jsonified (toISOString P) (js_of_chatroom room)) = Inr v
              \<and> chatroom_of_js v = Some room"
proof -
  from assms have msgs: "\<forall>t\<in>set (map timestamp (messages room)).
      new_Date P (JString (toISOString P t)) = Inr (Some t)"
    by (simp add: chatroom_dates_def)
  from assms have created:
    "new_Date P (JString (toISOString P (createdAt room))) = Inr (Some (createdAt room))"
    by (simp add: chatroom_dates_def)
  show ?thesis
  proof (cases "lastMessage room")
    case None
    with created revive_messages [OF msgs] show ?thesis
      by (simp add: js_of_chatroom_def revive_room_def lit_def string_prop_def date_prop_def
            optional_date_prop_def those_messages)
  next
    case (Some t)
    with assms have "toISOString P t \<noteq> []"
      "new_Date P (JString (toISOString P t)) = Inr (Some t)"
      by (simp_all add: chatroom_dates_def)
    with Some created revive_messages [OF msgs] show ?thesis
      by (simp add: js_of_chatroom_def revive_room_def lit_def string_prop_def date_prop_def
            optional_date_prop_def those_messages)
  qed
qed

lemma revive_rooms:
  assumes "\<forall>t\<in>set (concat (map chatroom_dates rooms)).
             toISOString P t \<noteq> [] \<and> new_Date P (JString (toISOString P t)) = Inr (Some t)"
  shows "\<exists>vs. map_result (revive_room P)
                 (map (\<lambda>room. jsonified (toISOString P) (js_of_chatroom room)) rooms) = Inr vs
              \<and> map chatroom_of_js vs = map Some rooms"
  using assms
proof (induction rooms)
  case Nil
  then show ?case by simp
next
  case (Cons room rooms)
  from Cons.prems have "\<forall>t\<in>set (chatroom_dates room).
      toISOString P t \<noteq> [] \<and> new_Date P (JString (toISOString P t)) = Inr (Some t)"
    by simp
  from revive_room_js_of_chatroom [OF this] obtain v where
    "revive_room P (jsonified (toISOString P) (js_of_chatroom room)) = Inr v"
    "chatroom_of_js v = Some room" by blast
  moreover from Cons obtain vs where
    "map_result (revive_room P)
       (map (\<lambda>room. jsonified (toISOString P) (js_of_chatroom room)) rooms) = Inr vs"
    "map chatroom_of_js vs = map Some rooms" by auto
  ultimately show ?case by simp
qed

lemma revive_storage_value:
  assumes "\<forall>t\<in>set (persisted_dates p).
             toISOString P t \<noteq> [] \<and> new_Date P (JString (toISOString P t)) = Inr (Some t)"
  shows "\<exists>loaded st rooms.
           revive P (jsonified (toISOString P) (storage_value p)) = Inr loaded
         \<and> get_prop loaded (lit ''state'') = Inr st
         \<and> get_prop st (lit ''chatrooms'') = Inr (JArray rooms)
         \<and> map chatroom_of_js rooms = map Some (persisted_chatrooms p)"
proof -
  from assms have "\<forall>t\<in>set (concat (map chatroom_dates (persisted_chatrooms p))).
      toISOString P t \<noteq> [] \<and> new_Date P (JString (toISOString P t)) = Inr (Some t)"
    by (simp add: persisted_dates_def)
  from revive_rooms [OF this] obtain vs where
    "map_result (revive_room P)
       (map (\<lambda>room. jsonified (toISOString P) (js_of_chatroom room)) (persisted_chatrooms p))
       = Inr vs"
    "map chatroom_of_js vs = map Some (persisted_chatrooms p)" by blast
  then show ?thesis
    by (simp add: storage_value_def js_of_persisted_def revive_def lit_def comp_def)
qed

text \<open>
  As \<open>JSON.parse\<close> alone returns it, with its dates as strings, a chatroom does not
  read as a \<open>Chatroom\<close>.
\<close>

lemma unrevived_chatroom: "chatroom_of_js (jsonified fmt (js_of_chatroom room)) = None"
  by (cases "lastMessage room")
     (simp_all add: js_of_chatroom_def lit_def string_prop_def date_prop_def
        split: option.split)

text \<open>
  C5, as stated, fails: the \<open>Date\<close> fields of a state may hold Invalid Dates
  (\<open>getItem\<close> itself puts \<open>new Date(room.createdAt)\<close> into the state for whatever
  the blob holds). \<open>JSON.stringify\<close> writes an Invalid Date as null; read back,
  \<open>createdAt\<close> and the message's \<open>timestamp\<close> are the epoch, \<open>new Date(null)\<close>,
  and \<open>lastMessage\<close> is undefined: none is the Invalid Date that was written.
\<close>

theorem storage_round_trip_counterexample:
  "getItem (example_platform_for invalid_dates_value)
     (setItem (example_platform_for invalid_dates_value) (lit ''gemini-app-storage'')
        invalid_dates_value Map.empty)
     (lit ''gemini-app-storage'')
   = Some invalid_dates_read_back
   \<and> invalid_dates_read_back \<noteq> invalid_dates_value"
  by (simp add: getItem_def setItem_def example_platform_for_def invalid_dates_value_def
        invalid_dates_read_back_def revive_def revive_room_def revive_message_def lit_def)

text \<open>
  C5, amended: let the \<open>Date\<close> fields of the persisted part \<open>p\<close> of a state be
  valid dates, that is time values \<open>t\<close> that the platform carries through: the ISO
  string of \<open>t\<close> is not empty and \<open>new Date\<close> of it is \<open>t\<close>, which ECMAScript
  guarantees for every time value of the \<open>Date\<close> range. Write \<open>p\<close> with \<open>setItem\<close>
  and read it back with \<open>getItem\<close>, on a platform where \<open>JSON.parse\<close> reads from
  the text that \<open>JSON.stringify\<close> wrote (a text that is not empty) the value ECMAScript
  specifies, with every \<open>Date\<close> as its ISO string. Then \<open>getItem\<close> returns an object
  whose \<open>state.chatrooms\<close> is an array that reads, element by element, as the
  chatrooms of \<open>p\<close>: \<open>createdAt\<close>, \<open>lastMessage\<close> and every message's
  \<open>timestamp\<close> are \<open>Date\<close> objects with the original time values, not strings
  (\<open>chatroom_of_js\<close> accepts no string in their place).
\<close>

theorem storage_round_trip:
  assumes "JSON_stringify P (storage_value p) \<noteq> []"
      and "JSON_parse P (JSON_stringify P (storage_value p))
             = Some (jsonified (toISOString P) (storage_value p))"
      and "\<forall>t\<in>set (persisted_dates p).
             toISOString P t \<noteq> [] \<and> new_Date P (JString (toISOString P t)) = Inr (Some t)"
  shows "\<exists>loaded st rooms.
           getItem P (setItem P name (storage_value p) storage) name = Some loaded
         \<and> get_prop loaded (lit ''state'') = Inr st
         \<and> get_prop st (lit ''chatrooms'') = Inr (JArray rooms)
         \<and> map chatroom_of_js rooms = map Some (persisted_chatrooms p)"
proof -
  from revive_storage_value [OF assms(3)] obtain loaded st rooms where
    "revive P (jsonified (toISOString P) (storage_value p)) = Inr loaded"
    "get_prop loaded (lit ''state'') = Inr st"
    "get_prop st (lit ''chatrooms'') = Inr (JArray rooms)"
    "map chatroom_of_js rooms = map Some (persisted_chatrooms p)" by blast
  with assms(1,2) show ?thesis by (simp add: getItem_def setItem_def)
qed

theorem storage_round_trip_witness:
  "JSON_stringify example_platform (storage_value (partialize example_state)) \<noteq> []
   \<and> persisted_dates (partialize example_state) = [20, 10, 2000, 1000, 2000]
   \<and> (\<exists>loaded st rooms.
        getItem example_platform
          (setItem example_platform (lit ''gemini-app-storage'')
             (storage_value (partialize example_state)) Map.empty)
          (lit ''gemini-app-storage'') = Some loaded
        \<and> get_prop loaded (lit ''state'') = Inr st
        \<and> get_prop st (lit ''chatrooms'') = Inr (JArray rooms)
        \<and> map chatroom_of_js rooms = map Some (chatrooms example_state))"
proof -
  have h1: "JSON_stringify example_platform (storage_value (partialize example_state)) \<noteq> []"
    by (simp add: example_platform_def example_platform_for_def lit_def)
  have h2: "JSON_parse example_platform
              (JSON_stringify example_platform (storage_value (partialize example_state)))
            = Some (jsonified (toISOString example_platform)
                      (storage_value (partialize example_state)))"
    by (simp add: example_platform_def example_platform_for_def)
  have h3: "\<forall>t\<in>set (persisted_dates (partialize example_state)).
              toISOString example_platform t \<noteq> []
              \<and> new_Date example_platform (JString (toISOString example_platform t))
                = Inr (Some t)"
    by (simp add: example_platform_def example_platform_for_def read_int_show_int
          show_int_not_Nil)
  have d: "persisted_dates (partialize example_state) = [20, 10, 2000, 1000, 2000]"
    by (simp add: persisted_dates_def chatroom_dates_def partialize_def example_state_def
          two_rooms_def createChatroom_def addMessage_def addMessage_room_def hello_def
          world_def initial_state_def lit_def Let_def message_data.defs message.defs)
  from storage_round_trip [OF h1 h2 h3, of "lit ''gemini-app-storage''" Map.empty] h1 d
  show ?thesis by (simp add: partialize_def)
qed

end
